theory Spec2Isabelle
  imports Main
begin

section \<open>Strings and numbers as the program prints them\<close>

text \<open>
  Python strings are modelled as \<^typ>\<open>string\<close> restricted to ASCII text.
  \<open>str(n)\<close> of a non-negative integer is its decimal numeral without leading zeros,
  \<open>s.zfill(w)\<close> pads an unsigned numeral with zeros on the left up to width \<open>w\<close>,
  \<open>s.lower()\<close> maps the letters A to Z to a to z, and \<open>s[-9:]\<close> keeps the last nine
  characters (the whole string when it is shorter).
\<close>

definition digit_char :: "nat \<Rightarrow> char" where
  "digit_char d = ''0123456789'' ! d"

fun str_nat :: "nat \<Rightarrow> string" where
  "str_nat n = (if n < 10 then [digit_char n] else str_nat (n div 10) @ [digit_char (n mod 10)])"

declare str_nat.simps [simp del]

definition str_int :: "int \<Rightarrow> string" where
  "str_int i = (if i < 0 then CHR ''-'' # str_nat (nat (- i)) else str_nat (nat i))"

definition zfill :: "nat \<Rightarrow> string \<Rightarrow> string" where
  "zfill w s = replicate (w - length s) CHR ''0'' @ s"

definition lower_char :: "char \<Rightarrow> char" where
  "lower_char c =
     (case map_of (zip ''ABCDEFGHIJKLMNOPQRSTUVWXYZ'' ''abcdefghijklmnopqrstuvwxyz'') c of
        Some l \<Rightarrow> l
      | None \<Rightarrow> c)"

definition lower :: "string \<Rightarrow> string" where
  "lower s = map lower_char s"

definition last9 :: "string \<Rightarrow> string" where
  "last9 s = drop (length s - 9) s"

fun is_prefix :: "string \<Rightarrow> string \<Rightarrow> bool" where
  "is_prefix [] ys = True"
| "is_prefix (x # xs) [] = False"
| "is_prefix (x # xs) (y # ys) = (x = y \<and> is_prefix xs ys)"

text \<open>\<open>contains xs ys\<close> is Python's \<open>xs in ys\<close> on strings.\<close>

fun contains :: "string \<Rightarrow> string \<Rightarrow> bool" where
  "contains xs [] = (xs = [])"
| "contains xs (y # ys) = (is_prefix xs (y # ys) \<or> contains xs ys)"

text \<open>Reading a decimal numeral back, used to speak about the sequence number inside a PO number.\<close>

definition digit_val :: "char \<Rightarrow> nat" where
  "digit_val c =
     (case map_of (zip ''0123456789'' [0, 1, 2, 3, 4, 5, 6, 7, 8, 9]) c of
        Some d \<Rightarrow> d
      | None \<Rightarrow> 0)"

definition is_digit :: "char \<Rightarrow> bool" where
  "is_digit c = (c \<in> set ''0123456789'')"

definition nat_of_digits :: "string \<Rightarrow> nat" where
  "nat_of_digits s = foldl (\<lambda>a c. 10 * a + digit_val c) 0 s"

definition po_sequence :: "string \<Rightarrow> nat" where
  "po_sequence po = nat_of_digits (tl po)"

section \<open>Dates, times and instants\<close>

text \<open>
  A \<open>datetime.date\<close> is its year, month and day, a \<open>datetime.time\<close> built by
  \<open>datetime.time(h, m)\<close> its hour and minute. An aware \<open>datetime\<close> is compared by its
  instant, counted here in microseconds; a naive one is counted from the start of day 0 of
  the proleptic ordinal, as \<open>date.toordinal\<close> numbers the days. The zone
  Australia/Brisbane is UTC+10 with no daylight saving for every date after 1992, so
  \<open>tz.localize\<close> subtracts ten hours; seconds and microseconds of the times the program
  builds are zero.
\<close>

type_synonym instant = int

record date =
  year :: nat
  month :: nat
  day :: nat

record time =
  hour :: nat
  minute :: nat

definition is_leap :: "nat \<Rightarrow> bool" where
  "is_leap y = (y mod 4 = 0 \<and> (y mod 100 \<noteq> 0 \<or> y mod 400 = 0))"

definition days_before_year :: "nat \<Rightarrow> int" where
  "days_before_year y =
     (let p = int y - 1 in p * 365 + p div 4 - p div 100 + p div 400)"

definition days_before_month :: "nat \<Rightarrow> nat \<Rightarrow> int" where
  "days_before_month y m =
     int (sum_list (take (m - 1) [31, 28, 31, 30, 31, 30, 31, 31, 30, 31, 30, 31]))
       + (if m > 2 \<and> is_leap y then 1 else 0)"

definition toordinal :: "date \<Rightarrow> int" where
  "toordinal d = days_before_year (year d) + days_before_month (year d) (month d) + int (day d)"

definition timedelta_hours :: "int \<Rightarrow> int" where
  "timedelta_hours n = n * 3600000000"

definition combine :: "date \<Rightarrow> time \<Rightarrow> int" where
  "combine d t = toordinal d * 86400000000 + int (hour t) * 3600000000 + int (minute t) * 60000000"

definition localize :: "int \<Rightarrow> instant" where
  "localize naive = naive - timedelta_hours 10"

definition str_date :: "date \<Rightarrow> string" where
  "str_date d = zfill 4 (str_nat (year d)) @ ''-'' @ zfill 2 (str_nat (month d)) @ ''-''
                  @ zfill 2 (str_nat (day d))"

definition str_time :: "time \<Rightarrow> string" where
  "str_time t = zfill 2 (str_nat (hour t)) @ '':'' @ zfill 2 (str_nat (minute t)) @ '':00''"

definition isoformat :: "date \<Rightarrow> time \<Rightarrow> string" where
  "isoformat d t = str_date d @ ''T'' @ str_time t @ ''+10:00''"

section \<open>The calendar store as the program sees it\<close>

text \<open>
  An event of the calendar's answer carries \<open>start\<close> and \<open>end\<close>, each with an optional
  \<open>dateTime\<close>. The field is modelled as the instant that
  \<open>datetime.fromisoformat(...).astimezone(tz)\<close> reads from it; \<open>None\<close> stands for a missing
  or empty \<open>dateTime\<close> (an all-day event has only \<open>date\<close>), which the program's test
  \<open>if event_start and event_end\<close> treats alike.

  The two stores are outside the program. Their answers are inputs of the model: \<open>remote\<close>
  tells, for each call the program can make, whether it raises and what it returns. It
  also carries the one answer of the data-frame library that the program's control flow
  depends on: \<open>date_default\<close> is what \<open>pd.to_datetime(cust["Date"]).date()\<close> makes of a
  record's Date cell as the default of the date widget, a date or the exception raised.
\<close>

record event =
  start_dateTime :: "instant option"
  end_dateTime :: "instant option"

datatype error = CalendarStoreError string | RecordStoreError string | TypeError | ValueError string

datatype cell = CStr string | CInt int

record cal_body =
  summary :: string
  description :: string
  body_start :: string
  body_end :: string

datatype call =
    Events_insert cal_body
  | Events_delete cell
  | Sheet_append "cell list"
  | Sheet_update string "cell list list"

record remote =
  events_list :: "instant \<Rightarrow> instant \<Rightarrow> error + event list option"
  events_insert :: "cal_body \<Rightarrow> error + string"
  events_delete :: "cell \<Rightarrow> error option"
  sheet_write :: "call \<Rightarrow> error option"
  date_default :: "cell \<Rightarrow> error + date"

section \<open>Availability\<close>

definition get_calendar_events :: "remote \<Rightarrow> date \<Rightarrow> error + event list" where
  "get_calendar_events r d =
     (let time_min = localize (combine d \<lparr>hour = 7, minute = 0\<rparr>);
          time_max = localize (combine d \<lparr>hour = 18, minute = 0\<rparr>)
      in case events_list r time_min time_max of
           Inl e \<Rightarrow> Inl e
         | Inr events_result \<Rightarrow>
             Inr (case events_result of None \<Rightarrow> [] | Some items \<Rightarrow> items))"

text \<open>The loop of \<open>is_time_available\<close> over the events, with its early \<open>return False\<close>.\<close>

fun events_loop :: "instant \<Rightarrow> instant \<Rightarrow> event list \<Rightarrow> bool" where
  "events_loop start_dt end_dt [] = True"
| "events_loop start_dt end_dt (ev # events) =
     (case (start_dateTime ev, end_dateTime ev) of
        (Some estart, Some eend) \<Rightarrow>
          (if \<not> (end_dt \<le> estart \<or> start_dt \<ge> eend) then False
           else events_loop start_dt end_dt events)
      | _ \<Rightarrow> events_loop start_dt end_dt events)"

definition is_time_available :: "remote \<Rightarrow> date \<Rightarrow> time \<Rightarrow> error + bool" where
  "is_time_available r d start_time =
     (let start_dt = localize (combine d start_time);
          end_dt = start_dt + timedelta_hours 4
      in case get_calendar_events r d of
           Inl e \<Rightarrow> Inl e
         | Inr events \<Rightarrow> Inr (events_loop start_dt end_dt events))"

text \<open>The loop of \<open>get_available_slots\<close> over \<open>range(7, 15)\<close>, collecting into \<open>slots\<close>.\<close>

fun slots_loop :: "remote \<Rightarrow> date \<Rightarrow> nat list \<Rightarrow> time list \<Rightarrow> error + time list" where
  "slots_loop r d [] slots = Inr slots"
| "slots_loop r d (h # hs) slots =
     (let start = \<lparr>hour = h, minute = 0\<rparr>
      in case is_time_available r d start of
           Inl e \<Rightarrow> Inl e
         | Inr ok \<Rightarrow> slots_loop r d hs (if ok then slots @ [start] else slots))"

definition get_available_slots :: "remote \<Rightarrow> date \<Rightarrow> error + time list" where
  "get_available_slots r d = slots_loop r d [7 ..< 15] []"

section \<open>Rows of the sheet and the search\<close>

text \<open>
  \<open>sheet.get_all_records()\<close> answers one mapping per data row, keyed by the eleven column
  headers; a value is a string, or an integer where the cell holds a numeral (a cell
  holding a fraction, read as a float, is outside the model). \<open>str_cell\<close> is Python's
  \<open>str\<close> on such a value and \<open>truthy\<close> its truth value.
\<close>

record customer =
  PO_No :: cell
  Name :: cell
  Phone :: cell
  From_Address :: cell
  To_Address :: cell
  Date :: cell
  Time :: cell
  End_Time :: cell
  Service :: cell
  Notes :: cell
  Event_ID :: cell

fun str_cell :: "cell \<Rightarrow> string" where
  "str_cell (CStr s) = s"
| "str_cell (CInt i) = str_int i"

fun truthy :: "cell \<Rightarrow> bool" where
  "truthy (CStr s) = (s \<noteq> [])"
| "truthy (CInt i) = (i \<noteq> 0)"

text \<open>The loop of \<open>find_customer\<close> over \<open>enumerate(records, start=2)\<close>.\<close>

fun find_loop :: "string \<Rightarrow> string \<Rightarrow> nat \<Rightarrow> customer list \<Rightarrow> nat option \<times> customer option" where
  "find_loop name phone i [] = (None, None)"
| "find_loop name phone i (row # records) =
     (if name \<noteq> [] \<and> contains (lower name) (lower (str_cell (Name row))) then (Some i, Some row)
      else if phone \<noteq> [] \<and> last9 (str_cell (Phone row)) = last9 phone then (Some i, Some row)
      else find_loop name phone (i + 1) records)"

definition find_customer :: "customer list \<Rightarrow> string \<Rightarrow> string \<Rightarrow> nat option \<times> customer option" where
  "find_customer records name phone = find_loop name phone 2 records"

section \<open>Session state, the sheet and the calls made\<close>

datatype mode = Search | View | New_booking | Rebook

datatype msg = Warning string | Error string | Success string

text \<open>
  \<open>world\<close> holds the four entries of \<open>st.session_state\<close>, the rows of the worksheet
  (header row first), the calls to the two stores that change them, each with the
  exception it raised if any, in the order they were made, and the notices shown with
  \<open>st.warning\<close>, \<open>st.error\<close> and \<open>st.success\<close>.
\<close>

record world =
  mode :: mode
  po_counter :: nat
  current_customer :: "(nat \<times> customer) option"
  show_cancel_confirm :: bool
  sheet :: "cell list list"
  calls :: "(call \<times> error option) list"
  messages :: "msg list"

definition init_world :: "customer list \<Rightarrow> cell list list \<Rightarrow> world" where
  "init_world records rows =
     \<lparr>mode = Search, po_counter = length records + 1, current_customer = None,
      show_cancel_confirm = False, sheet = rows, calls = [], messages = []\<rparr>"

fun error_text :: "error \<Rightarrow> string" where
  "error_text (CalendarStoreError m) = m"
| "error_text (RecordStoreError m) = m"
| "error_text TypeError = ''cannot unpack non-iterable NoneType object''"
| "error_text (ValueError m) = m"

definition generate_po_number :: "world \<Rightarrow> string" where
  "generate_po_number w = ''E'' @ zfill 6 (str_nat (po_counter w))"

text \<open>
  Modelled from the spec: the record store's \<open>appendRow\<close> adds the values as a new last row,
  and \<open>updateRowRange(rowIndex, values)\<close> overwrites columns A to K of the given row, rows
  being numbered from 1 with the header at row 1. The worksheet object itself comes from
  the spreadsheet library.
\<close>

definition append_row :: "cell list \<Rightarrow> cell list list \<Rightarrow> cell list list" where
  "append_row values rows = rows @ [values]"

definition update_row_range :: "nat \<Rightarrow> cell list \<Rightarrow> cell list list \<Rightarrow> cell list list" where
  "update_row_range row_index values rows =
     (if row_index - 1 < length rows
      then rows[row_index - 1 := values @ drop (length values) (rows ! (row_index - 1))]
      else rows @ replicate (row_index - 1 - length rows) [] @ [values])"

fun str_index :: "nat option \<Rightarrow> string" where
  "str_index None = ''None''"
| "str_index (Some i) = str_nat i"

definition a1_range :: "nat option \<Rightarrow> string" where
  "a1_range row_index = ''A'' @ str_index row_index @ '':K'' @ str_index row_index"

text \<open>
  \<open>sheet.update(f"A{row_index}:K{row_index}", [values])\<close>. A range that names no row of
  the sheet (row 0, or \<open>None\<close> formatted into the range) is refused by the store.
\<close>

definition sheet_range_update :: "remote \<Rightarrow> nat option \<Rightarrow> cell list \<Rightarrow> world \<Rightarrow> error option \<times> world" where
  "sheet_range_update r row_index values w =
     (let c = Sheet_update (a1_range row_index) [values];
          outcome = (case row_index of
                       None \<Rightarrow> Some (RecordStoreError ''Unable to parse range'')
                     | Some i \<Rightarrow> if i = 0 then Some (RecordStoreError ''Unable to parse range'')
                                else sheet_write r c)
      in case outcome of
           Some e \<Rightarrow> (Some e, w\<lparr>calls := calls w @ [(c, Some e)]\<rparr>)
         | None \<Rightarrow>
             (None, w\<lparr>calls := calls w @ [(c, None)],
                       sheet := update_row_range (the row_index) values (sheet w)\<rparr>))"

definition append_booking_to_sheet :: "remote \<Rightarrow> cell list \<Rightarrow> world \<Rightarrow> error option \<times> world" where
  "append_booking_to_sheet r values w =
     (let c = Sheet_append values
      in case sheet_write r c of
           Some e \<Rightarrow> (Some e, w\<lparr>calls := calls w @ [(c, Some e)]\<rparr>)
         | None \<Rightarrow>
             (None, w\<lparr>calls := calls w @ [(c, None)], sheet := append_row values (sheet w)\<rparr>))"

definition update_booking_in_sheet :: "remote \<Rightarrow> nat option \<Rightarrow> cell list \<Rightarrow> world \<Rightarrow> error option \<times> world" where
  "update_booking_in_sheet r row_index values w = sheet_range_update r row_index values w"

section \<open>Calendar events of a booking\<close>

definition en_dash :: string where
  "en_dash = [CHR 0xE2, CHR 0x80, CHR 0x93]"

text \<open>The \<open>event\<close> dictionary that \<open>create_calendar_event\<close> builds and inserts.\<close>

definition event_body ::
  "cell \<Rightarrow> string \<Rightarrow> string \<Rightarrow> string \<Rightarrow> string \<Rightarrow> date \<Rightarrow> time \<Rightarrow> time \<Rightarrow> string \<Rightarrow> string
     \<Rightarrow> cal_body" where
  "event_body po name phone from_addr to_addr d start end service notes =
     \<lparr>summary = str_cell po @ '' '' @ en_dash @ '' '' @ name @ '' '' @ en_dash @ '' '' @ service,
      description = ''Phone: '' @ phone @ [CHR 0x0A] @ ''From: '' @ from_addr @ [CHR 0x0A]
                      @ ''To: '' @ to_addr @ [CHR 0x0A] @ ''Notes: '' @ notes,
      body_start = isoformat d start,
      body_end = isoformat d end\<rparr>"

definition create_calendar_event ::
  "remote \<Rightarrow> cell \<Rightarrow> string \<Rightarrow> string \<Rightarrow> string \<Rightarrow> string \<Rightarrow> date \<Rightarrow> time \<Rightarrow> time \<Rightarrow> string \<Rightarrow> string
     \<Rightarrow> world \<Rightarrow> (error + string) \<times> world" where
  "create_calendar_event r po name phone from_addr to_addr d start end service notes w =
     (let ev = event_body po name phone from_addr to_addr d start end service notes
      in case events_insert r ev of
           Inl e \<Rightarrow> (Inl e, w\<lparr>calls := calls w @ [(Events_insert ev, Some e)]\<rparr>)
         | Inr new_id \<Rightarrow> (Inr new_id, w\<lparr>calls := calls w @ [(Events_insert ev, None)]\<rparr>))"

definition update_calendar_event ::
  "remote \<Rightarrow> cell \<Rightarrow> cell \<Rightarrow> string \<Rightarrow> string \<Rightarrow> string \<Rightarrow> string \<Rightarrow> date \<Rightarrow> time \<Rightarrow> time \<Rightarrow> string
     \<Rightarrow> string \<Rightarrow> world \<Rightarrow> (error + string) \<times> world" where
  "update_calendar_event r event_id po name phone from_addr to_addr d start end service notes w =
     (let w1 = (case events_delete r event_id of
                  None \<Rightarrow> w\<lparr>calls := calls w @ [(Events_delete event_id, None)]\<rparr>
                | Some e \<Rightarrow>
                    w\<lparr>calls := calls w @ [(Events_delete event_id, Some e)],
                      messages := messages w @ [Warning (''Could not delete old event: '' @ error_text e)]\<rparr>)
      in create_calendar_event r po name phone from_addr to_addr d start end service notes w1)"

definition delete_calendar_event :: "remote \<Rightarrow> cell \<Rightarrow> world \<Rightarrow> world" where
  "delete_calendar_event r event_id w =
     (case events_delete r event_id of
        None \<Rightarrow> w\<lparr>calls := calls w @ [(Events_delete event_id, None)]\<rparr>
      | Some e \<Rightarrow>
          w\<lparr>calls := calls w @ [(Events_delete event_id, Some e)],
            messages := messages w @ [Error (''Delete failed: '' @ error_text e)]\<rparr>)"

section \<open>The pages of the script\<close>

text \<open>
  One run of the script serves one interaction. The values the widgets return are inputs:
  \<open>form\<close> holds what the booking form's widgets return when the run reaches the submit
  button, and a button datatype tells which button of the page was pressed, if any. An
  exception that no handler catches ends the run; what the run changed before stays
  changed. A widget default that can end the run is part of the model (see
  \<open>booking_page\<close>); the other defaults, which the widgets turn into text, and what a page
  only displays (the customer's details, the list of upcoming bookings) are not. The start
  time is the value the select box returns, one of the slots it was given.
\<close>

record form =
  name :: string
  phone :: string
  from_addr :: string
  to_addr :: string
  date :: date
  start_time :: time
  service :: string
  "notes" :: string

definition plus_four_hours :: "time \<Rightarrow> time" where
  "plus_four_hours t = \<lparr>hour = (hour t + 4) mod 24, minute = minute t\<rparr>"

definition row_values :: "cell \<Rightarrow> form \<Rightarrow> time \<Rightarrow> string \<Rightarrow> cell list" where
  "row_values po f end_time event_id =
     [po, CStr (name f), CStr (phone f), CStr (from_addr f), CStr (to_addr f),
      CStr (str_date (date f)), CStr (str_time (start_time f)), CStr (str_time end_time),
      CStr (service f), CStr (notes f), CStr event_id]"

definition back_to_search :: "world \<Rightarrow> world" where
  "back_to_search w = w\<lparr>mode := Search, current_customer := None\<rparr>"

text \<open>The body of \<open>if st.button("Submit Booking")\<close>.\<close>

definition submit_booking ::
  "remote \<Rightarrow> cell \<Rightarrow> form \<Rightarrow> time \<Rightarrow> cell \<Rightarrow> nat option \<Rightarrow> world \<Rightarrow> error option \<times> world" where
  "submit_booking r po f end_time event_id idx w =
     (if mode w = New_booking then
        (case create_calendar_event r po (name f) (phone f) (from_addr f) (to_addr f) (date f)
                (start_time f) end_time (service f) (notes f) w of
           (Inl e, w1) \<Rightarrow> (Some e, w1)
         | (Inr new_id, w1) \<Rightarrow>
             (case append_booking_to_sheet r (row_values po f end_time new_id) w1 of
                (Some e, w2) \<Rightarrow> (Some e, w2)
              | (None, w2) \<Rightarrow>
                  (None, back_to_search
                     (w2\<lparr>po_counter := po_counter w2 + 1,
                         messages := messages w2 @ [Success ''Booking created.'']\<rparr>))))
      else
        (case update_calendar_event r event_id po (name f) (phone f) (from_addr f) (to_addr f)
                (date f) (start_time f) end_time (service f) (notes f) w of
           (Inl e, w1) \<Rightarrow> (Some e, w1)
         | (Inr new_id, w1) \<Rightarrow>
             (case update_booking_in_sheet r idx (row_values po f end_time new_id) w1 of
                (Some e, w2) \<Rightarrow> (Some e, w2)
              | (None, w2) \<Rightarrow>
                  (None, back_to_search
                     (w2\<lparr>messages := messages w2 @ [Success ''Booking updated.'']\<rparr>)))))"

datatype booking_button = Return_to_search | Submit_booking | No_booking_button

definition service_options :: "string list" where
  "service_options =
     [''Small Truck + 1 Man'', ''Small Truck + 2 Men'', ''Big Truck + 1 Man'', ''Big Truck + 2 Men'']"

fun repr_cell :: "cell \<Rightarrow> string" where
  "repr_cell (CStr s) = [CHR 0x27] @ s @ [CHR 0x27]"
| "repr_cell (CInt i) = str_int i"

text \<open>
  One run of the booking page, in the order of the script: the return button; in a rebook
  the held booking, whose Date cell must give a default for the date widget; the slots of
  the chosen date, with the stop when there are none; the default of the service select
  box, \<open>[...].index(service)\<close>, which raises \<open>ValueError\<close> when the held booking's
  Service is none of the four options; and only then the submit button.
\<close>

definition booking_page :: "remote \<Rightarrow> form \<Rightarrow> booking_button \<Rightarrow> world \<Rightarrow> error option \<times> world" where
  "booking_page r f b w =
     (if b = Return_to_search then (None, back_to_search w)
      else
        case (if mode w = Rebook
              then (case current_customer w of
                      None \<Rightarrow> Inl TypeError
                    | Some (idx, cust) \<Rightarrow>
                        (case date_default r (Date cust) of
                           Inl e \<Rightarrow> Inl e
                         | Inr d \<Rightarrow> Inr (PO_No cust, Service cust, Event_ID cust, Some idx)))
              else Inr (CStr (generate_po_number w), CStr ''Small Truck + 1 Man'', CStr [], None)) of
          Inl e \<Rightarrow> (Some e, w)
        | Inr (po, service_default, event_id, idx) \<Rightarrow>
            (case get_available_slots r (date f) of
               Inl e \<Rightarrow> (Some e, w)
             | Inr slots \<Rightarrow>
                 if slots = []
                 then (None, w\<lparr>messages := messages w
                          @ [Warning ''No 4-hour slots available between 7 AM and 6 PM.'']\<rparr>)
                 else if service_default \<notin> set (map CStr service_options)
                 then (Some (ValueError (repr_cell service_default @ '' is not in list'')), w)
                 else
                   (let end_time = plus_four_hours (start_time f)
                    in if b = Submit_booking then submit_booking r po f end_time event_id idx w
                       else (None, w))))"

text \<open>The body of \<open>if st.button("Yes, Cancel")\<close>.\<close>

definition yes_cancel :: "remote \<Rightarrow> nat \<Rightarrow> customer \<Rightarrow> world \<Rightarrow> error option \<times> world" where
  "yes_cancel r idx cust w =
     (let w1 = (if truthy (Event_ID cust) then delete_calendar_event r (Event_ID cust) w else w)
      in case sheet_range_update r (Some idx) (replicate 11 (CStr [])) w1 of
           (Some e, w2) \<Rightarrow> (Some e, w2)
         | (None, w2) \<Rightarrow>
             (None, w2\<lparr>messages := messages w2 @ [Success ''Cancelled.''],
                        mode := Search, current_customer := None,
                        show_cancel_confirm := False\<rparr>))"

datatype view_button = Rebook_button | Cancel_booking | Yes_cancel | No_cancel | Back | No_view_button

definition view_page :: "remote \<Rightarrow> view_button \<Rightarrow> world \<Rightarrow> error option \<times> world" where
  "view_page r b w =
     (case current_customer w of
        None \<Rightarrow> (Some TypeError, w)
      | Some (idx, cust) \<Rightarrow>
          (let w1 = (if b = Rebook_button then w\<lparr>mode := Rebook\<rparr> else w);
               w2 = (if b = Cancel_booking then w1\<lparr>show_cancel_confirm := True\<rparr> else w1);
               (err, w3) =
                 (if show_cancel_confirm w2
                  then (let w2a = w2\<lparr>messages := messages w2 @ [Warning ''Are you sure?'']\<rparr>
                        in if b = Yes_cancel then yes_cancel r idx cust w2a
                           else if b = No_cancel then (None, w2a\<lparr>show_cancel_confirm := False\<rparr>)
                           else (None, w2a))
                  else (None, w2))
           in case err of
                Some e \<Rightarrow> (Some e, w3)
              | None \<Rightarrow> if b = Back then (None, back_to_search w3) else (None, w3)))"

datatype search_button = Search_submit string string | New_booking_button | View_modify nat customer

definition search_page :: "customer list \<Rightarrow> search_button \<Rightarrow> world \<Rightarrow> world" where
  "search_page records b w =
     (let w1 = (case b of
                  Search_submit nm ph \<Rightarrow>
                    (case find_customer records nm ph of
                       (Some idx, Some cust) \<Rightarrow>
                         w\<lparr>current_customer := Some (idx, cust), mode := View\<rparr>
                     | _ \<Rightarrow>
                         w\<lparr>messages := messages w
                             @ [Warning ''Not found. You can create a new booking.'']\<rparr>)
                | _ \<Rightarrow> w);
          w2 = (if b = New_booking_button then w1\<lparr>mode := New_booking\<rparr> else w1)
      in case b of
           View_modify i row \<Rightarrow> w2\<lparr>current_customer := Some (i + 2, row), mode := View\<rparr>
         | _ \<Rightarrow> w2)"

text \<open>
  An interaction is a widget event on the page the session is on, together with the
  answers of the stores during the run it triggers; an event for another page finds no
  widget and changes nothing.
\<close>

datatype action =
    On_search "customer list" search_button
  | On_view view_button
  | On_booking form booking_button

fun step :: "world \<Rightarrow> remote \<times> action \<Rightarrow> world" where
  "step w (r, On_search records b) = (if mode w = Search then search_page records b w else w)"
| "step w (r, On_view b) = (if mode w = View then snd (view_page r b w) else w)"
| "step w (r, On_booking f b) =
     (if mode w = New_booking \<or> mode w = Rebook then snd (booking_page r f b w) else w)"

definition run :: "world \<Rightarrow> (remote \<times> action) list \<Rightarrow> world" where
  "run w acts = foldl step w acts"

text \<open>The PO numbers of the rows that were appended to the sheet, in the order of the calls.\<close>

fun appended_po :: "call \<times> error option \<Rightarrow> string list" where
  "appended_po (Sheet_append (po # rest), None) = [str_cell po]"
| "appended_po c = []"

definition assigned_pos :: "world \<Rightarrow> string list" where
  "assigned_pos w = concat (map appended_po (calls w))"

section \<open>Several sessions of one process\<close>

text \<open>
  One server process serves every browser session. Each session has its own
  \<open>st.session_state\<close>, seeded by lines 35 to 45 on the session's first run from the records
  the sheet answers at that moment; all sessions write to the same sheet and the same
  calendar. The runs of the script are taken one after the other, each for one session,
  and a run sees the stores as the run before left them.
\<close>

record process =
  store_sheet :: "cell list list"
  store_calls :: "(call \<times> error option) list"
  sessions :: "world list"

datatype process_event = Start_session "customer list" | Interaction nat remote action

definition enter :: "process \<Rightarrow> world \<Rightarrow> world" where
  "enter p w = w\<lparr>sheet := store_sheet p, calls := store_calls p\<rparr>"

fun process_step :: "process \<Rightarrow> process_event \<Rightarrow> process" where
  "process_step p (Start_session records) =
     p\<lparr>sessions := sessions p @ [enter p (init_world records [])]\<rparr>"
| "process_step p (Interaction k r a) =
     (if k < length (sessions p)
      then (let w' = step (enter p (sessions p ! k)) (r, a)
            in \<lparr>store_sheet = sheet w', store_calls = calls w',
                sessions = (sessions p)[k := w']\<rparr>)
      else p)"

definition process_run :: "process \<Rightarrow> process_event list \<Rightarrow> process" where
  "process_run p evs = foldl process_step p evs"

text \<open>The PO numbers of the rows appended by any session of the process, in order.\<close>

definition process_assigned :: "process \<Rightarrow> string list" where
  "process_assigned p = concat (map appended_po (store_calls p))"

section \<open>The availability rule in the words of the specification\<close>

text \<open>
  A candidate window starts on the hour \<open>h\<close> of the date and lasts four hours; it overlaps
  an event unless \<open>window.end <= event.start\<close> or \<open>window.start >= event.end\<close>.
\<close>

definition window :: "date \<Rightarrow> nat \<Rightarrow> instant \<times> instant" where
  "window d h =
     (let s = localize (combine d \<lparr>hour = h, minute = 0\<rparr>) in (s, s + timedelta_hours 4))"

definition overlaps :: "instant \<times> instant \<Rightarrow> instant \<times> instant \<Rightarrow> bool" where
  "overlaps w ev = (\<not> (snd w \<le> fst ev \<or> fst w \<ge> snd ev))"

definition timed_event :: "instant \<times> instant \<Rightarrow> event" where
  "timed_event iv = \<lparr>start_dateTime = Some (fst iv), end_dateTime = Some (snd iv)\<rparr>"

definition at_hour :: "date \<Rightarrow> nat \<Rightarrow> instant" where
  "at_hour d h = localize (combine d \<lparr>hour = h, minute = 0\<rparr>)"

definition all_slots :: "time list" where
  "all_slots = map (\<lambda>h. \<lparr>hour = h, minute = 0\<rparr>) [7, 8, 9, 10, 11, 12, 13, 14]"

section \<open>The search rule in the words of the specification\<close>

text \<open>
  A row matches when the non-empty query name is a case-insensitive substring of the stored
  name, or the last nine characters of the stored phone equal the last nine characters of
  the non-empty query phone.
\<close>

definition row_matches :: "string \<Rightarrow> string \<Rightarrow> customer \<Rightarrow> bool" where
  "row_matches nm ph row \<longleftrightarrow>
     (nm \<noteq> [] \<and> (\<exists>ps ss. lower (str_cell (Name row)) = ps @ lower nm @ ss))
     \<or> (ph \<noteq> [] \<and> last9 (str_cell (Phone row)) = last9 ph)"

section \<open>Bookkeeping of PO numbers\<close>

text \<open>
  The sequence numbers of the PO numbers assigned so far are strictly increasing and all
  below the counter, and each assigned PO number is the letter E followed by its sequence
  number padded to six digits.
\<close>

definition po_inv :: "world \<Rightarrow> bool" where
  "po_inv w \<longleftrightarrow>
     sorted_wrt (<) (map po_sequence (assigned_pos w))
     \<and> list_all (\<lambda>po. po_sequence po < po_counter w
                        \<and> po = ''E'' @ zfill 6 (str_nat (po_sequence po))) (assigned_pos w)"

fun is_sheet_call :: "call \<Rightarrow> bool" where
  "is_sheet_call (Sheet_append values) = True"
| "is_sheet_call (Sheet_update rng values) = True"
| "is_sheet_call c = False"


text \<open>
  Modelled from the spec: \<open>getAllRecords\<close> answers each data row as a mapping keyed by the
  eleven headers, in column order; a cell the row does not reach reads as the empty string.
\<close>

definition cell_at :: "cell list \<Rightarrow> nat \<Rightarrow> cell" where
  "cell_at row k = (if k < length row then row ! k else CStr [])"

definition record_of_row :: "cell list \<Rightarrow> customer" where
  "record_of_row row =
     \<lparr>PO_No = cell_at row 0, Name = cell_at row 1, Phone = cell_at row 2,
      From_Address = cell_at row 3, To_Address = cell_at row 4, Date = cell_at row 5,
      Time = cell_at row 6, End_Time = cell_at row 7, Service = cell_at row 8,
      Notes = cell_at row 9, Event_ID = cell_at row 10\<rparr>"



section \<open>Example inputs\<close>

definition example_date :: date where
  "example_date = \<lparr>year = 2024, month = 6, day = 10\<rparr>"

text \<open>A calendar that lists the given events and a pair of stores that accept every call.\<close>

definition quiet_remote :: "event list \<Rightarrow> remote" where
  "quiet_remote evs =
     \<lparr>events_list = (\<lambda>time_min time_max. Inr (Some evs)),
      events_insert = (\<lambda>body. Inr ''evt1''),
      events_delete = (\<lambda>event_id. None),
      sheet_write = (\<lambda>c. None),
      date_default = (\<lambda>c. Inr example_date)\<rparr>"

definition bob :: customer where
  "bob =
     \<lparr>PO_No = CStr ''E000001'', Name = CStr ''Bob Stone'', Phone = CInt 412345678,
      From_Address = CStr ''1 Ash St'', To_Address = CStr ''2 Oak St'', Date = CStr ''2024-06-10'',
      Time = CStr ''07:00:00'', End_Time = CStr ''11:00:00'', Service = CStr ''Big Truck + 2 Men'',
      Notes = CStr [], Event_ID = CStr ''evt0''\<rparr>"

definition ann :: customer where
  "ann =
     \<lparr>PO_No = CStr ''E000002'', Name = CStr ''Ann Lee'', Phone = CStr ''0498765432'',
      From_Address = CStr ''3 Elm St'', To_Address = CStr ''4 Fig St'', Date = CStr ''2024-06-11'',
      Time = CStr ''09:00:00'', End_Time = CStr ''13:00:00'', Service = CStr ''Small Truck + 1 Man'',
      Notes = CStr ''piano'', Event_ID = CStr []\<rparr>"

definition row_of_record :: "customer \<Rightarrow> cell list" where
  "row_of_record c =
     [PO_No c, Name c, Phone c, From_Address c, To_Address c, Date c, Time c, End_Time c,
      Service c, Notes c, Event_ID c]"

definition header_row :: "cell list" where
  "header_row =
     [CStr ''PO No'', CStr ''Name'', CStr ''Phone'', CStr ''From Address'', CStr ''To Address'',
      CStr ''Date'', CStr ''Time'', CStr ''End Time'', CStr ''Service'', CStr ''Notes'',
      CStr ''Event ID'']"

definition example_sheet :: "cell list list" where
  "example_sheet = [header_row, row_of_record bob, row_of_record ann]"

definition example_form :: form where
  "example_form =
     \<lparr>name = ''Bob Stone'', phone = ''0412345678'', from_addr = ''1 Ash St'',
      to_addr = ''9 Yew St'', date = example_date, start_time = \<lparr>hour = 9, minute = 0\<rparr>,
      service = ''Big Truck + 2 Men'', notes = ''stairs''\<rparr>"

text \<open>Stores that accept every write, with a calendar that refuses every delete.\<close>

definition remote_delete_fails :: remote where
  "remote_delete_fails =
     \<lparr>events_list = (\<lambda>time_min time_max. Inr (Some [])),
      events_insert = (\<lambda>body. Inr ''evt1''),
      events_delete = (\<lambda>event_id. Some (CalendarStoreError ''Not Found'')),
      sheet_write = (\<lambda>c. None),
      date_default = (\<lambda>c. Inr example_date)\<rparr>"

text \<open>Stores whose calendar refuses every insert.\<close>

definition remote_insert_fails :: remote where
  "remote_insert_fails =
     \<lparr>events_list = (\<lambda>time_min time_max. Inr (Some [])),
      events_insert = (\<lambda>body. Inl (CalendarStoreError ''Backend Error'')),
      events_delete = (\<lambda>event_id. None),
      sheet_write = (\<lambda>c. None),
      date_default = (\<lambda>c. Inr example_date)\<rparr>"

definition rebook_world :: world where
  "rebook_world =
     \<lparr>mode = Rebook, po_counter = 3, current_customer = Some (2, bob),
      show_cancel_confirm = False, sheet = example_sheet, calls = [], messages = []\<rparr>"

definition confirm_world :: world where
  "confirm_world =
     \<lparr>mode = View, po_counter = 3, current_customer = Some (2, bob),
      show_cancel_confirm = True, sheet = example_sheet, calls = [], messages = []\<rparr>"


text \<open>
  A process whose sheet holds the two example rows, and two sessions of it that both start
  before either books: each opens the booking form and submits.
\<close>

definition example_process :: process where
  "example_process = \<lparr>store_sheet = example_sheet, store_calls = [], sessions = []\<rparr>"

definition two_sessions :: "process_event list" where
  "two_sessions =
     [Start_session [bob, ann],
      Start_session [bob, ann],
      Interaction 0 (quiet_remote []) (On_search [bob, ann] New_booking_button),
      Interaction 0 (quiet_remote []) (On_booking example_form Submit_booking),
      Interaction 1 (quiet_remote []) (On_search [bob, ann] New_booking_button),
      Interaction 1 (quiet_remote []) (On_booking example_form Submit_booking)]"

definition example_run :: "(remote \<times> action) list" where
  "example_run =
     [(quiet_remote [], On_search [bob, ann] New_booking_button),
      (quiet_remote [], On_booking example_form Submit_booking),
      (quiet_remote [], On_search [bob, ann] (Search_submit ''bob'' [])),
      (quiet_remote [], On_view Cancel_booking),
      (quiet_remote [], On_view Yes_cancel),
      (quiet_remote [], On_search [bob, ann] New_booking_button),
      (quiet_remote [], On_booking example_form Submit_booking)]"

section \<open>Numerals and substrings: proofs\<close>

lemma str_nat_lt: "n < 10 \<Longrightarrow> str_nat n = [digit_char n]"
  by (simp add: str_nat.simps)

lemma str_nat_ge: "\<not> n < 10 \<Longrightarrow> str_nat n = str_nat (n div 10) @ [digit_char (n mod 10)]"
  by (subst str_nat.simps) simp

lemma lt_10_cases:
  "d < 10 \<Longrightarrow> d = 0 \<or> d = 1 \<or> d = 2 \<or> d = 3 \<or> d = 4 \<or> d = 5 \<or> d = 6 \<or> d = 7 \<or> d = 8 \<or> d = (9::nat)"
  by arith

lemma digit_val_digit_char: "d < 10 \<Longrightarrow> digit_val (digit_char d) = d"
  using lt_10_cases [of d] by (auto simp: digit_val_def digit_char_def)

lemma is_digit_digit_char: "d < 10 \<Longrightarrow> is_digit (digit_char d)"
  using lt_10_cases [of d] by (auto simp: is_digit_def digit_char_def)

lemma nat_of_digits_snoc: "nat_of_digits (s @ [c]) = 10 * nat_of_digits s + digit_val c"
  by (simp add: nat_of_digits_def)

lemma nat_of_digits_str_nat: "nat_of_digits (str_nat n) = n"
proof (induction n rule: str_nat.induct)
  case (1 n)
  show ?case
  proof (cases "n < 10")
    case True
    then show ?thesis
      by (simp add: str_nat_lt nat_of_digits_def digit_val_digit_char)
  next
    case False
    with 1 show ?thesis
      by (simp add: str_nat_ge nat_of_digits_snoc digit_val_digit_char)
  qed
qed

lemma digits_str_nat: "c \<in> set (str_nat n) \<Longrightarrow> is_digit c"
proof (induction n rule: str_nat.induct)
  case (1 n)
  show ?case
  proof (cases "n < 10")
    case True
    with 1(2) show ?thesis by (simp add: str_nat_lt is_digit_digit_char)
  next
    case False
    with 1 show ?thesis by (auto simp: str_nat_ge is_digit_digit_char)
  qed
qed

lemma length_str_nat: "n < 10 ^ k \<Longrightarrow> 0 < k \<Longrightarrow> length (str_nat n) \<le> k"
proof (induction n arbitrary: k rule: str_nat.induct)
  case (1 n)
  show ?case
  proof (cases "n < 10")
    case True
    with 1(3) show ?thesis by (simp add: str_nat_lt Suc_leI)
  next
    case False
    obtain j where k: "k = Suc j" using 1(3) by (cases k) auto
    from False 1(2) k have "0 < j" by (cases j) auto
    moreover from 1(2) k have "n div 10 < 10 ^ j" by (simp add: less_mult_imp_div_less mult.commute)
    ultimately have "length (str_nat (n div 10)) \<le> j" using 1(1) [OF False] by blast
    with False k show ?thesis by (simp add: str_nat_ge)
  qed
qed

lemma nat_of_digits_zeros: "nat_of_digits (replicate k CHR ''0'' @ s) = nat_of_digits s"
proof -
  have "foldl (\<lambda>a c. 10 * a + digit_val c) 0 (replicate k CHR ''0'') = 0"
    by (induction k) (simp_all add: digit_val_def)
  then show ?thesis by (simp add: nat_of_digits_def)
qed

lemma po_sequence_generate: "po_sequence (generate_po_number w) = po_counter w"
  by (simp add: po_sequence_def generate_po_number_def zfill_def nat_of_digits_zeros
      nat_of_digits_str_nat)

lemma generate_1: "generate_po_number (w\<lparr>po_counter := 1\<rparr>) = ''E000001''"
  by (simp add: generate_po_number_def zfill_def str_nat_lt digit_char_def eval_nat_numeral)

lemma generate_123456: "generate_po_number (w\<lparr>po_counter := 123456\<rparr>) = ''E123456''"
  by (simp add: generate_po_number_def zfill_def str_nat_lt str_nat_ge digit_char_def)

lemma length_generate: "po_counter w < 1000000 \<Longrightarrow> length (generate_po_number w) = 7"
  using length_str_nat [of "po_counter w" 6]
  by (simp add: generate_po_number_def zfill_def)

lemma hd_generate: "hd (generate_po_number w) = CHR ''E''"
  by (simp add: generate_po_number_def)

lemma digits_generate: "c \<in> set (tl (generate_po_number w)) \<Longrightarrow> is_digit c"
proof -
  assume "c \<in> set (tl (generate_po_number w))"
  then have "c = CHR ''0'' \<or> c \<in> set (str_nat (po_counter w))"
    by (auto simp: generate_po_number_def zfill_def)
  then show ?thesis
  proof
    assume "c = CHR ''0''"
    then show ?thesis by (simp add: is_digit_def)
  next
    assume "c \<in> set (str_nat (po_counter w))"
    then show ?thesis by (rule digits_str_nat)
  qed
qed

lemma is_prefix_iff: "is_prefix xs ys \<longleftrightarrow> (\<exists>ss. ys = xs @ ss)"
  by (induction xs ys rule: is_prefix.induct) auto

lemma contains_iff: "contains xs ys \<longleftrightarrow> (\<exists>ps ss. ys = ps @ xs @ ss)"
proof (induction ys)
  case Nil
  then show ?case by auto
next
  case (Cons y ys)
  show ?case
  proof
    assume "contains xs (y # ys)"
    then consider "is_prefix xs (y # ys)" | "contains xs ys" by auto
    then show "\<exists>ps ss. y # ys = ps @ xs @ ss"
    proof cases
      case 1
      then obtain ss where "y # ys = xs @ ss" by (auto simp: is_prefix_iff)
      then have "y # ys = [] @ xs @ ss" by simp
      then show ?thesis by blast
    next
      case 2
      with Cons obtain ps ss where "ys = ps @ xs @ ss" by blast
      then have "y # ys = (y # ps) @ xs @ ss" by simp
      then show ?thesis by blast
    qed
  next
    assume "\<exists>ps ss. y # ys = ps @ xs @ ss"
    then obtain ps ss where e: "y # ys = ps @ xs @ ss" by blast
    show "contains xs (y # ys)"
    proof (cases ps)
      case Nil
      with e have "is_prefix xs (y # ys)" by (auto simp: is_prefix_iff)
      then show ?thesis by simp
    next
      case (Cons p ps')
      with e have "ys = ps' @ xs @ ss" by simp
      then have "contains xs ys" using Cons.IH by blast
      then show ?thesis by simp
    qed
  qed
qed

section \<open>Availability: proofs\<close>

lemma events_loop_iff:
  "events_loop s e evs \<longleftrightarrow>
     (\<forall>ev \<in> set evs. \<forall>a b. start_dateTime ev = Some a \<and> end_dateTime ev = Some b \<longrightarrow> e \<le> a \<or> b \<le> s)"
  by (induction evs) (auto split: option.splits)

lemma slots_loop_events:
  assumes "get_calendar_events r d = Inr evs"
  shows "slots_loop r d hs acc =
     Inr (acc @ map (\<lambda>h. \<lparr>hour = h, minute = 0\<rparr>)
        (filter (\<lambda>h. events_loop (fst (window d h)) (snd (window d h)) evs) hs))"
  using assms
  by (induction hs arbitrary: acc) (simp_all add: is_time_available_def window_def Let_def)

lemma range_7_15: "[7 ..< 15] = [7, 8, 9, 10, 11, 12, 13, 14::nat]"
  by (simp add: upt_rec)

lemma events_loop_timed:
  "events_loop s e (map timed_event ivs) \<longleftrightarrow> (\<forall>iv \<in> set ivs. \<not> overlaps (s, e) iv)"
  by (auto simp: events_loop_iff timed_event_def overlaps_def)

lemma events_loop_untimed:
  "\<forall>ev \<in> set evs. start_dateTime ev = None \<or> end_dateTime ev = None \<Longrightarrow> events_loop s e evs"
  by (auto simp: events_loop_iff)

lemma events_loop_filter:
  "events_loop s e evs =
     events_loop s e (filter (\<lambda>ev. start_dateTime ev \<noteq> None \<and> end_dateTime ev \<noteq> None) evs)"
  by (auto simp: events_loop_iff)

lemma get_calendar_events_quiet: "get_calendar_events (quiet_remote evs) d = Inr evs"
  by (simp add: get_calendar_events_def quiet_remote_def)

text \<open>
  C1. Whenever the calendar answers with events that all carry a start and an end
  date-time, \<open>get_available_slots\<close> returns, in ascending order, exactly the start hours
  \<open>h\<close> from 7 to 14 whose window \<open>[h:00, h:00 + 4h)\<close> overlaps none of the events under
  the half-open test; with the single event 10:00 to 14:00 of that date the answer is
  14:00 alone.
\<close>

theorem available_slots_exact:
  assumes "get_calendar_events r d = Inr (map timed_event ivs)"
  shows "get_available_slots r d =
           Inr (map (\<lambda>h. \<lparr>hour = h, minute = 0\<rparr>)
                  (filter (\<lambda>h. \<forall>iv \<in> set ivs. \<not> overlaps (window d h) iv)
                     [7, 8, 9, 10, 11, 12, 13, 14]))
         \<and> (ivs = [(at_hour d 10, at_hour d 14)] \<longrightarrow>
              get_available_slots r d = Inr [\<lparr>hour = 14, minute = 0\<rparr>])"
proof -
  have gen: "get_available_slots r d =
           Inr (map (\<lambda>h. \<lparr>hour = h, minute = 0\<rparr>)
                  (filter (\<lambda>h. \<forall>iv \<in> set ivs. \<not> overlaps (window d h) iv)
                     [7, 8, 9, 10, 11, 12, 13, 14]))"
    unfolding get_available_slots_def slots_loop_events [OF assms] range_7_15
    by (simp add: events_loop_timed)
  have ex: "filter (\<lambda>h. \<forall>iv \<in> set [(at_hour d 10, at_hour d 14)]. \<not> overlaps (window d h) iv)
              [7, 8, 9, 10, 11, 12, 13, 14] = [14]"
    by (simp add: overlaps_def window_def at_hour_def combine_def localize_def
        timedelta_hours_def Let_def)
  have "get_available_slots r d = Inr [\<lparr>hour = 14, minute = 0\<rparr>]"
    if "ivs = [(at_hour d 10, at_hour d 14)]"
    unfolding gen unfolding that ex by simp
  with gen show ?thesis by blast
qed

theorem available_slots_exact_witness:
  "get_calendar_events
      (quiet_remote (map timed_event [(at_hour example_date 10, at_hour example_date 14)]))
      example_date
     = Inr (map timed_event [(at_hour example_date 10, at_hour example_date 14)])
   \<and> get_available_slots
        (quiet_remote (map timed_event [(at_hour example_date 10, at_hour example_date 14)]))
        example_date
     = Inr [\<lparr>hour = 14, minute = 0\<rparr>]"
proof -
  have h: "get_calendar_events
      (quiet_remote (map timed_event [(at_hour example_date 10, at_hour example_date 14)]))
      example_date
     = Inr (map timed_event [(at_hour example_date 10, at_hour example_date 14)])"
    by (rule get_calendar_events_quiet)
  have "get_available_slots
        (quiet_remote (map timed_event [(at_hour example_date 10, at_hour example_date 14)]))
        example_date
     = Inr [\<lparr>hour = 14, minute = 0\<rparr>]"
    using available_slots_exact [OF h] by blast
  with h show ?thesis by (rule conjI)
qed

text \<open>
  C2. When the calendar answers with no events for the date, \<open>get_available_slots\<close>
  returns the eight start times 07:00 to 14:00 in ascending order.
\<close>

theorem no_events_all_slots:
  assumes "get_calendar_events r d = Inr []"
  shows "get_available_slots r d =
           Inr [\<lparr>hour = 7, minute = 0\<rparr>, \<lparr>hour = 8, minute = 0\<rparr>, \<lparr>hour = 9, minute = 0\<rparr>,
                \<lparr>hour = 10, minute = 0\<rparr>, \<lparr>hour = 11, minute = 0\<rparr>, \<lparr>hour = 12, minute = 0\<rparr>,
                \<lparr>hour = 13, minute = 0\<rparr>, \<lparr>hour = 14, minute = 0\<rparr>]"
  unfolding get_available_slots_def slots_loop_events [OF assms] range_7_15
  by simp

theorem no_events_all_slots_witness:
  "get_calendar_events (quiet_remote []) example_date = Inr []
   \<and> get_available_slots (quiet_remote []) example_date =
           Inr [\<lparr>hour = 7, minute = 0\<rparr>, \<lparr>hour = 8, minute = 0\<rparr>, \<lparr>hour = 9, minute = 0\<rparr>,
                \<lparr>hour = 10, minute = 0\<rparr>, \<lparr>hour = 11, minute = 0\<rparr>, \<lparr>hour = 12, minute = 0\<rparr>,
                \<lparr>hour = 13, minute = 0\<rparr>, \<lparr>hour = 14, minute = 0\<rparr>]"
proof -
  have h: "get_calendar_events (quiet_remote []) example_date = Inr []"
    by (rule get_calendar_events_quiet)
  from h no_events_all_slots [OF h] show ?thesis by (rule conjI)
qed

text \<open>
  C10. An event without a start date-time or without an end date-time is skipped by the
  loop of \<open>is_time_available\<close>: the answer is the same as with such events removed. When
  every event of the date is of this kind, every start time is available and
  \<open>get_available_slots\<close> returns all eight slots.
\<close>

theorem untimed_events_ignored:
  "events_loop s e evs =
     events_loop s e (filter (\<lambda>ev. start_dateTime ev \<noteq> None \<and> end_dateTime ev \<noteq> None) evs)
   \<and> (get_calendar_events r d = Inr evs
        \<and> (\<forall>ev \<in> set evs. start_dateTime ev = None \<or> end_dateTime ev = None) \<longrightarrow>
      (\<forall>t. is_time_available r d t = Inr True) \<and> get_available_slots r d = Inr all_slots)"
proof -
  have "get_available_slots r d = Inr all_slots"
    if a: "get_calendar_events r d = Inr evs"
      and b: "\<forall>ev \<in> set evs. start_dateTime ev = None \<or> end_dateTime ev = None"
    unfolding get_available_slots_def slots_loop_events [OF a] range_7_15 all_slots_def
    using events_loop_untimed [OF b] by simp
  moreover have "is_time_available r d t = Inr True"
    if a: "get_calendar_events r d = Inr evs"
      and b: "\<forall>ev \<in> set evs. start_dateTime ev = None \<or> end_dateTime ev = None" for t
    using events_loop_untimed [OF b] by (simp add: is_time_available_def a Let_def)
  ultimately show ?thesis using events_loop_filter by blast
qed

theorem untimed_events_ignored_witness:
  "get_calendar_events
      (quiet_remote [\<lparr>start_dateTime = None, end_dateTime = None\<rparr>,
                     \<lparr>start_dateTime = Some (at_hour example_date 9), end_dateTime = None\<rparr>])
      example_date
     = Inr [\<lparr>start_dateTime = None, end_dateTime = None\<rparr>,
            \<lparr>start_dateTime = Some (at_hour example_date 9), end_dateTime = None\<rparr>]
   \<and> get_available_slots
      (quiet_remote [\<lparr>start_dateTime = None, end_dateTime = None\<rparr>,
                     \<lparr>start_dateTime = Some (at_hour example_date 9), end_dateTime = None\<rparr>])
      example_date
     = Inr all_slots"
proof -
  have h: "get_calendar_events
      (quiet_remote [\<lparr>start_dateTime = None, end_dateTime = None\<rparr>,
                     \<lparr>start_dateTime = Some (at_hour example_date 9), end_dateTime = None\<rparr>])
      example_date
     = Inr [\<lparr>start_dateTime = None, end_dateTime = None\<rparr>,
            \<lparr>start_dateTime = Some (at_hour example_date 9), end_dateTime = None\<rparr>]"
    by (rule get_calendar_events_quiet)
  from untimed_events_ignored
    [of _ _ "[\<lparr>start_dateTime = None, end_dateTime = None\<rparr>,
             \<lparr>start_dateTime = Some (at_hour example_date 9), end_dateTime = None\<rparr>]"
        "quiet_remote [\<lparr>start_dateTime = None, end_dateTime = None\<rparr>,
             \<lparr>start_dateTime = Some (at_hour example_date 9), end_dateTime = None\<rparr>]"
        example_date] h
  show ?thesis by simp
qed

section \<open>Search: proofs\<close>

lemma row_matches_code:
  "row_matches nm ph row \<longleftrightarrow>
     (nm \<noteq> [] \<and> contains (lower nm) (lower (str_cell (Name row))))
     \<or> (ph \<noteq> [] \<and> last9 (str_cell (Phone row)) = last9 ph)"
  by (simp add: row_matches_def contains_iff)

lemma find_loop_none:
  "\<forall>row \<in> set records. \<not> row_matches nm ph row \<Longrightarrow> find_loop nm ph i records = (None, None)"
  by (induction records arbitrary: i) (auto simp: row_matches_def contains_iff)

lemma find_loop_first:
  "k < length records \<Longrightarrow> row_matches nm ph (records ! k)
     \<Longrightarrow> \<forall>j < k. \<not> row_matches nm ph (records ! j)
     \<Longrightarrow> find_loop nm ph i records = (Some (i + k), Some (records ! k))"
proof (induction records arbitrary: i k)
  case Nil
  then show ?case by simp
next
  case (Cons row records)
  show ?case
  proof (cases k)
    case 0
    with Cons.prems(2) show ?thesis
      by (auto simp: row_matches_def contains_iff)
  next
    case (Suc k')
    with Cons.prems(3) have nm0: "\<not> row_matches nm ph row" by force
    have "find_loop nm ph (i + 1) records = (Some (i + 1 + k'), Some (records ! k'))"
    proof (rule Cons.IH)
      show "k' < length records" using Cons.prems(1) Suc by simp
      show "row_matches nm ph (records ! k')" using Cons.prems(2) Suc by simp
      show "\<forall>j<k'. \<not> row_matches nm ph (records ! j)"
      proof (intro allI impI)
        fix j assume "j < k'"
        then have "Suc j < k" using Suc by simp
        with Cons.prems(3) have "\<not> row_matches nm ph ((row # records) ! Suc j)" by blast
        then show "\<not> row_matches nm ph (records ! j)" by simp
      qed
    qed
    with nm0 Suc show ?thesis
      by (auto simp: row_matches_def contains_iff)
  qed
qed

text \<open>
  C3. \<open>find_customer\<close> returns the first row, in the order of the snapshot, that matches
  the query: when no row matches it returns \<open>(None, None)\<close>, and when row \<open>k\<close> (counted
  from 0) is the first that matches it returns that row with the index \<open>k + 2\<close>, the row's
  position in the sheet under the header row. An empty query field satisfies no criterion.
\<close>

theorem find_customer_first_match:
  "((\<forall>row \<in> set records. \<not> row_matches nm ph row) \<longrightarrow>
      find_customer records nm ph = (None, None))
   \<and> (\<forall>k < length records.
        row_matches nm ph (records ! k) \<and> (\<forall>j < k. \<not> row_matches nm ph (records ! j)) \<longrightarrow>
        find_customer records nm ph = (Some (k + 2), Some (records ! k)))
   \<and> \<not> row_matches [] [] row
   \<and> (row_matches nm [] row \<longrightarrow> nm \<noteq> [])
   \<and> (row_matches [] ph row \<longrightarrow> ph \<noteq> [])"
proof -
  have a: "(\<forall>row \<in> set records. \<not> row_matches nm ph row) \<longrightarrow>
      find_customer records nm ph = (None, None)"
    by (simp add: find_customer_def find_loop_none)
  have b: "\<forall>k < length records.
        row_matches nm ph (records ! k) \<and> (\<forall>j < k. \<not> row_matches nm ph (records ! j)) \<longrightarrow>
        find_customer records nm ph = (Some (k + 2), Some (records ! k))"
    using find_loop_first [of _ records nm ph 2] by (simp add: find_customer_def add.commute)
  have c: "\<not> row_matches [] [] row" by (simp add: row_matches_def)
  have d: "row_matches nm [] row \<longrightarrow> nm \<noteq> []" by (simp add: row_matches_def)
  have e: "row_matches [] ph row \<longrightarrow> ph \<noteq> []" by (simp add: row_matches_def)
  from a b c d e show ?thesis by blast
qed

theorem find_customer_first_match_witness:
  "row_matches ''ANN'' [] ([bob, ann] ! 1)
   \<and> \<not> row_matches ''ANN'' [] ([bob, ann] ! 0)
   \<and> find_customer [bob, ann] ''ANN'' [] = (Some 3, Some ann)"
proof -
  have m1: "row_matches ''ANN'' [] ([bob, ann] ! 1)"
    by (simp add: row_matches_code ann_def lower_def lower_char_def)
  have m0: "\<not> row_matches ''ANN'' [] ([bob, ann] ! 0)"
    by (simp add: row_matches_code bob_def lower_def lower_char_def)
  then have m0': "\<forall>j < 1. \<not> row_matches ''ANN'' [] ([bob, ann] ! j)" by simp
  have "\<forall>k < length [bob, ann].
        row_matches ''ANN'' [] ([bob, ann] ! k)
          \<and> (\<forall>j < k. \<not> row_matches ''ANN'' [] ([bob, ann] ! j)) \<longrightarrow>
        find_customer [bob, ann] ''ANN'' [] = (Some (k + 2), Some ([bob, ann] ! k))"
    using find_customer_first_match [of "[bob, ann]" "''ANN''" "[]"]
    by (rule conjunct2 [THEN conjunct1])
  moreover have "1 < length [bob, ann]" by simp
  ultimately have "find_customer [bob, ann] ''ANN'' [] = (Some (1 + 2), Some ([bob, ann] ! 1))"
    using m1 m0' by blast
  then have "find_customer [bob, ann] ''ANN'' [] = (Some 3, Some ann)" by simp
  with m1 m0 show ?thesis by blast
qed

section \<open>Store calls: what each helper changes\<close>

lemma create_calendar_event_eq:
  "create_calendar_event r po n p fa ta d st en sv nt w =
     (events_insert r (event_body po n p fa ta d st en sv nt),
      w\<lparr>calls := calls w @ [(Events_insert (event_body po n p fa ta d st en sv nt),
                case events_insert r (event_body po n p fa ta d st en sv nt) of
                  Inl e \<Rightarrow> Some e | Inr i \<Rightarrow> None)]\<rparr>)"
  by (simp add: create_calendar_event_def Let_def split: sum.splits)

lemma delete_calendar_event_eq:
  "delete_calendar_event r ev w =
     w\<lparr>calls := calls w @ [(Events_delete ev, events_delete r ev)],
       messages := messages w @ (case events_delete r ev of None \<Rightarrow> []
           | Some e \<Rightarrow> [Error (''Delete failed: '' @ error_text e)])\<rparr>"
  by (simp add: delete_calendar_event_def split: option.splits)

lemma update_calendar_event_eq:
  "update_calendar_event r ev po n p fa ta d st en sv nt w =
     (events_insert r (event_body po n p fa ta d st en sv nt),
      w\<lparr>calls := calls w @ [(Events_delete ev, events_delete r ev),
                (Events_insert (event_body po n p fa ta d st en sv nt),
                 case events_insert r (event_body po n p fa ta d st en sv nt) of
                   Inl e \<Rightarrow> Some e | Inr i \<Rightarrow> None)],
        messages := messages w @ (case events_delete r ev of None \<Rightarrow> []
           | Some e \<Rightarrow> [Warning (''Could not delete old event: '' @ error_text e)])\<rparr>)"
  by (simp add: update_calendar_event_def create_calendar_event_eq Let_def split: option.splits)

lemma sheet_range_update_eq:
  "0 < i \<Longrightarrow> sheet_range_update r (Some i) vs w =
     (sheet_write r (Sheet_update (a1_range (Some i)) [vs]),
      w\<lparr>calls := calls w @ [(Sheet_update (a1_range (Some i)) [vs],
                                 sheet_write r (Sheet_update (a1_range (Some i)) [vs]))],
        sheet := (if sheet_write r (Sheet_update (a1_range (Some i)) [vs]) = None
                  then update_row_range i vs (sheet w) else sheet w)\<rparr>)"
  by (simp add: sheet_range_update_def Let_def split: option.splits)

lemma append_booking_to_sheet_eq:
  "append_booking_to_sheet r vs w =
     (sheet_write r (Sheet_append vs),
      w\<lparr>calls := calls w @ [(Sheet_append vs, sheet_write r (Sheet_append vs))],
        sheet := (if sheet_write r (Sheet_append vs) = None
                  then append_row vs (sheet w) else sheet w)\<rparr>)"
  by (simp add: append_booking_to_sheet_def Let_def split: option.splits)

lemma update_row_range_inside:
  assumes "0 < i" "i \<le> length rows"
  shows "update_row_range i vs rows = rows[i - 1 := vs @ drop (length vs) (rows ! (i - 1))]"
proof -
  from assms have "i - 1 < length rows" by arith
  then show ?thesis by (simp add: update_row_range_def)
qed

lemma update_row_range_length:
  "0 < i \<Longrightarrow> i \<le> length rows \<Longrightarrow> length (update_row_range i vs rows) = length rows"
  by (simp add: update_row_range_inside)

lemma update_row_range_nth:
  assumes "0 < i" "i \<le> length rows"
  shows "update_row_range i vs rows ! (i - 1) = vs @ drop (length vs) (rows ! (i - 1))"
proof -
  from assms have "i - 1 < length rows" by arith
  then show ?thesis by (simp add: update_row_range_inside [OF assms])
qed

lemma update_row_range_other:
  "0 < i \<Longrightarrow> i \<le> length rows \<Longrightarrow> j \<noteq> i - 1 \<Longrightarrow>
     update_row_range i vs rows ! j = rows ! j"
  by (simp add: update_row_range_inside)

lemma update_row_range_same:
  assumes "0 < i" "i \<le> length rows" "take (length vs) (rows ! (i - 1)) = vs"
  shows "update_row_range i vs rows = rows"
proof -
  have "vs @ drop (length vs) (rows ! (i - 1)) = rows ! (i - 1)"
    using assms(3) append_take_drop_id [of "length vs" "rows ! (i - 1)"] by simp
  then show ?thesis by (simp add: update_row_range_inside [OF assms(1,2)])
qed

lemma update_row_range_idem:
  assumes "0 < i"
  shows "update_row_range i vs (update_row_range i vs rows) = update_row_range i vs rows"
proof (cases "i \<le> length rows")
  case True
  let ?rows' = "update_row_range i vs rows"
  have len: "i \<le> length ?rows'" using True assms by (simp add: update_row_range_length)
  have "take (length vs) (?rows' ! (i - 1)) = vs"
    using update_row_range_nth [OF assms True, of vs] by simp
  then show ?thesis by (rule update_row_range_same [OF assms len])
next
  case False
  let ?rows' = "rows @ replicate (i - 1 - length rows) [] @ [vs]"
  from False assms have nin: "\<not> i - 1 < length rows" by arith
  then have eq: "update_row_range i vs rows = ?rows'" by (simp add: update_row_range_def)
  from False have len: "length ?rows' = i" by simp
  then have le: "i \<le> length ?rows'" by simp
  have "?rows' ! (i - 1) = vs"
    using nin False by (simp add: nth_append)
  then have "take (length vs) (?rows' ! (i - 1)) = vs" by simp
  then have "update_row_range i vs ?rows' = ?rows'"
    by (rule update_row_range_same [OF assms le])
  with eq show ?thesis by simp
qed

section \<open>The submit and cancel handlers: proofs\<close>

lemma submit_insert_fails:
  assumes "events_insert r (event_body po (name f) (phone f) (from_addr f) (to_addr f) (date f)
              (start_time f) end_time (service f) (notes f)) = Inl e"
  shows "\<exists>w'. submit_booking r po f end_time event_id idx w = (Some e, w')
           \<and> sheet w' = sheet w \<and> po_counter w' = po_counter w
           \<and> mode w' = mode w \<and> current_customer w' = current_customer w
           \<and> calls w' = calls w
                @ (if mode w = New_booking then [] else [(Events_delete event_id, events_delete r event_id)])
                @ [(Events_insert (event_body po (name f) (phone f) (from_addr f) (to_addr f) (date f)
                      (start_time f) end_time (service f) (notes f)), Some e)]"
  by (simp add: submit_booking_def create_calendar_event_eq update_calendar_event_eq assms)

lemma submit_rebook_ok:
  assumes m: "mode w \<noteq> New_booking" and i: "0 < i"
    and ins: "events_insert r (event_body po (name f) (phone f) (from_addr f) (to_addr f) (date f)
              (start_time f) end_time (service f) (notes f)) = Inr new_id"
    and wr: "sheet_write r (Sheet_update (a1_range (Some i)) [row_values po f end_time new_id]) = None"
  shows "\<exists>w'. submit_booking r po f end_time event_id (Some i) w = (None, w')
           \<and> sheet w' = update_row_range i (row_values po f end_time new_id) (sheet w)
           \<and> po_counter w' = po_counter w
           \<and> mode w' = Search \<and> current_customer w' = None
           \<and> messages w' = messages w
                @ (case events_delete r event_id of None \<Rightarrow> []
                   | Some e \<Rightarrow> [Warning (''Could not delete old event: '' @ error_text e)])
                @ [Success ''Booking updated.'']
           \<and> calls w' = calls w
                @ [(Events_delete event_id, events_delete r event_id),
                   (Events_insert (event_body po (name f) (phone f) (from_addr f) (to_addr f) (date f)
                      (start_time f) end_time (service f) (notes f)), None),
                   (Sheet_update (a1_range (Some i)) [row_values po f end_time new_id], None)]"
  using m
  by (simp add: submit_booking_def update_booking_in_sheet_def update_calendar_event_eq
      sheet_range_update_eq [OF i] ins wr back_to_search_def)

lemma yes_cancel_ok:
  assumes i: "0 < i"
    and wr: "sheet_write r (Sheet_update (a1_range (Some i)) [replicate 11 (CStr [])]) = None"
  shows "\<exists>w'. yes_cancel r i cust w = (None, w')
     \<and> sheet w' = update_row_range i (replicate 11 (CStr [])) (sheet w)
     \<and> po_counter w' = po_counter w
     \<and> mode w' = Search \<and> current_customer w' = None \<and> \<not> show_cancel_confirm w'
     \<and> calls w' = calls w
          @ (if truthy (Event_ID cust)
             then [(Events_delete (Event_ID cust), events_delete r (Event_ID cust))] else [])
          @ [(Sheet_update (a1_range (Some i)) [replicate 11 (CStr [])], None)]
     \<and> messages w' = messages w
          @ (if truthy (Event_ID cust)
             then (case events_delete r (Event_ID cust) of None \<Rightarrow> []
                   | Some e \<Rightarrow> [Error (''Delete failed: '' @ error_text e)])
             else [])
          @ [Success ''Cancelled.'']"
  by (simp add: yes_cancel_def delete_calendar_event_eq sheet_range_update_eq [OF i] wr Let_def)

lemma a1_range_Some: "a1_range (Some i) = ''A'' @ str_nat i @ '':K'' @ str_nat i"
  by (simp add: a1_range_def)

lemma slots_quiet_like:
  "events_list r = (\<lambda>time_min time_max. Inr (Some [])) \<Longrightarrow> get_available_slots r d = Inr all_slots"
proof -
  assume "events_list r = (\<lambda>time_min time_max. Inr (Some []))"
  then have e: "get_calendar_events r d = Inr []" by (simp add: get_calendar_events_def)
  show ?thesis
    unfolding get_available_slots_def slots_loop_events [OF e] range_7_15 all_slots_def
    by simp
qed

lemma rebook_date_default_raises:
  "mode w = Rebook \<Longrightarrow> current_customer w = Some (i, cust) \<Longrightarrow> b \<noteq> Return_to_search \<Longrightarrow>
     date_default r (Date cust) = Inl e \<Longrightarrow> booking_page r f b w = (Some e, w)"
  by (simp add: booking_page_def)

lemma rebook_invalid_service_raises:
  "mode w = Rebook \<Longrightarrow> current_customer w = Some (i, cust) \<Longrightarrow> b \<noteq> Return_to_search \<Longrightarrow>
     date_default r (Date cust) = Inr d0 \<Longrightarrow>
     get_available_slots r (date f) = Inr slots \<Longrightarrow> slots \<noteq> [] \<Longrightarrow>
     Service cust \<notin> set (map CStr service_options) \<Longrightarrow>
     booking_page r f b w = (Some (ValueError (repr_cell (Service cust) @ '' is not in list'')), w)"
  by (simp add: booking_page_def)

text \<open>
  C4. A rebook submit is a run of the booking page in rebook mode that reaches the submit
  button: the held booking's Date gives the date widget its default, the chosen date has
  slots, and the held booking's Service is one of the four options (otherwise the run
  ends before the button, as the two lemmas above show). When the insert of the
  replacement event and the range update are accepted, such a submit overwrites columns A
  to K of the row at the booking's own index and appends nothing: the sheet keeps its
  length and every other row, the row holds the booking's PO number in its first column
  and the event id the insert returned in its eleventh, and the PO counter is unchanged.
  The delete of the old event is called first, then the insert, then the range update; a
  delete that fails is shown as a warning and the insert and the update follow all the
  same.
\<close>

theorem rebook_submit_in_place:
  assumes m: "mode w = Rebook" and cc: "current_customer w = Some (i, cust)"
    and i: "0 < i" and il: "i \<le> length (sheet w)"
    and dd: "date_default r (Date cust) = Inr d0"
    and sl: "get_available_slots r (date f) = Inr slots" and ne: "slots \<noteq> []"
    and sv: "Service cust \<in> set (map CStr service_options)"
    and ins: "events_insert r (event_body (PO_No cust) (name f) (phone f) (from_addr f) (to_addr f)
                (date f) (start_time f) (plus_four_hours (start_time f)) (service f) (notes f))
              = Inr new_id"
    and wr: "sheet_write r (Sheet_update (''A'' @ str_nat i @ '':K'' @ str_nat i)
                [row_values (PO_No cust) f (plus_four_hours (start_time f)) new_id]) = None"
  shows "\<exists>w'. booking_page r f Submit_booking w = (None, w')
     \<and> length (sheet w') = length (sheet w)
     \<and> sheet w' ! (i - 1) = row_values (PO_No cust) f (plus_four_hours (start_time f)) new_id
                              @ drop 11 (sheet w ! (i - 1))
     \<and> (\<forall>j. j \<noteq> i - 1 \<longrightarrow> sheet w' ! j = sheet w ! j)
     \<and> sheet w' ! (i - 1) ! 0 = PO_No cust
     \<and> sheet w' ! (i - 1) ! 10 = CStr new_id
     \<and> po_counter w' = po_counter w
     \<and> calls w' = calls w
          @ [(Events_delete (Event_ID cust), events_delete r (Event_ID cust)),
             (Events_insert (event_body (PO_No cust) (name f) (phone f) (from_addr f) (to_addr f)
                (date f) (start_time f) (plus_four_hours (start_time f)) (service f) (notes f)), None),
             (Sheet_update (''A'' @ str_nat i @ '':K'' @ str_nat i)
                [row_values (PO_No cust) f (plus_four_hours (start_time f)) new_id], None)]
     \<and> (\<forall>e. events_delete r (Event_ID cust) = Some e \<longrightarrow>
           Warning (''Could not delete old event: '' @ error_text e) \<in> set (messages w'))"
proof -
  let ?vs = "row_values (PO_No cust) f (plus_four_hours (start_time f)) new_id"
  have m': "mode w \<noteq> New_booking" using m by simp
  have wr': "sheet_write r (Sheet_update (a1_range (Some i)) [?vs]) = None"
    using wr by (simp add: a1_range_Some)
  from submit_rebook_ok [OF m' i ins wr', of "Event_ID cust"]
  obtain w' where w': "submit_booking r (PO_No cust) f (plus_four_hours (start_time f)) (Event_ID cust) (Some i) w = (None, w')"
    "sheet w' = update_row_range i ?vs (sheet w)"
    "po_counter w' = po_counter w"
    "messages w' = messages w
                @ (case events_delete r (Event_ID cust) of None \<Rightarrow> []
                   | Some e \<Rightarrow> [Warning (''Could not delete old event: '' @ error_text e)])
                @ [Success ''Booking updated.'']"
    "calls w' = calls w
          @ [(Events_delete (Event_ID cust), events_delete r (Event_ID cust)),
             (Events_insert (event_body (PO_No cust) (name f) (phone f) (from_addr f) (to_addr f)
                (date f) (start_time f) (plus_four_hours (start_time f)) (service f) (notes f)), None),
             (Sheet_update (a1_range (Some i)) [?vs], None)]"
    by blast
  have page: "booking_page r f Submit_booking w = (None, w')"
    using m cc dd sl ne sv w'(1) by (simp add: booking_page_def Let_def)
  have len: "length ?vs = 11" by (simp add: row_values_def)
  have row: "sheet w' ! (i - 1) = ?vs @ drop 11 (sheet w ! (i - 1))"
    using update_row_range_nth [OF i il, of ?vs] w'(2) len by simp
  have oth: "\<forall>j. j \<noteq> i - 1 \<longrightarrow> sheet w' ! j = sheet w ! j"
    using update_row_range_other [OF i il] w'(2) by simp
  have c0: "sheet w' ! (i - 1) ! 0 = PO_No cust"
    unfolding row by (simp add: row_values_def)
  have c10: "sheet w' ! (i - 1) ! 10 = CStr new_id"
    unfolding row by (simp add: row_values_def nth_append)
  have warn: "\<forall>e. events_delete r (Event_ID cust) = Some e \<longrightarrow>
           Warning (''Could not delete old event: '' @ error_text e) \<in> set (messages w')"
    using w'(4) by simp
  have lensheet: "length (sheet w') = length (sheet w)"
    using update_row_range_length [OF i il] w'(2) by simp
  have calls': "calls w' = calls w
          @ [(Events_delete (Event_ID cust), events_delete r (Event_ID cust)),
             (Events_insert (event_body (PO_No cust) (name f) (phone f) (from_addr f) (to_addr f)
                (date f) (start_time f) (plus_four_hours (start_time f)) (service f) (notes f)), None),
             (Sheet_update (''A'' @ str_nat i @ '':K'' @ str_nat i) [?vs], None)]"
    using w'(5) by (simp add: a1_range_Some)
  from page lensheet row oth c0 c10 w'(3) calls' warn show ?thesis by blast
qed

theorem rebook_submit_in_place_witness:
  "mode rebook_world = Rebook
   \<and> current_customer rebook_world = Some (2, bob)
   \<and> date_default remote_delete_fails (Date bob) = Inr example_date
   \<and> get_available_slots remote_delete_fails (date example_form) = Inr all_slots
   \<and> Service bob \<in> set (map CStr service_options)
   \<and> (\<exists>w'. booking_page remote_delete_fails example_form Submit_booking rebook_world = (None, w')
         \<and> length (sheet w') = 3
         \<and> sheet w' ! 1 ! 0 = CStr ''E000001''
         \<and> sheet w' ! 1 ! 10 = CStr ''evt1''
         \<and> sheet w' ! 2 = row_of_record ann
         \<and> po_counter w' = 3
         \<and> Warning ''Could not delete old event: Not Found'' \<in> set (messages w'))"
proof -
  have h1: "mode rebook_world = Rebook" by (simp add: rebook_world_def)
  have h2: "current_customer rebook_world = Some (2, bob)" by (simp add: rebook_world_def)
  have h3: "0 < (2::nat)" by simp
  have h4: "2 \<le> length (sheet rebook_world)" by (simp add: rebook_world_def example_sheet_def)
  have h5: "get_available_slots remote_delete_fails (date example_form) = Inr all_slots"
    by (rule slots_quiet_like) (simp add: remote_delete_fails_def)
  have h6: "all_slots \<noteq> []" by (simp add: all_slots_def)
  have hd: "date_default remote_delete_fails (Date bob) = Inr example_date"
    by (simp add: remote_delete_fails_def)
  have hs: "Service bob \<in> set (map CStr service_options)"
    by (simp add: bob_def service_options_def)
  have h7: "events_insert remote_delete_fails
       (event_body (PO_No bob) (name example_form) (phone example_form) (from_addr example_form)
          (to_addr example_form) (date example_form) (start_time example_form)
          (plus_four_hours (start_time example_form)) (service example_form) (notes example_form))
      = Inr ''evt1''"
    by (simp add: remote_delete_fails_def)
  have h8: "sheet_write remote_delete_fails (Sheet_update (''A'' @ str_nat 2 @ '':K'' @ str_nat 2)
       [row_values (PO_No bob) example_form (plus_four_hours (start_time example_form)) ''evt1''])
      = None"
    by (simp add: remote_delete_fails_def)
  from rebook_submit_in_place [OF h1 h2 h3 h4 hd h5 h6 hs h7 h8]
  obtain w' where w': "booking_page remote_delete_fails example_form Submit_booking rebook_world = (None, w')"
    "length (sheet w') = length (sheet rebook_world)"
    "\<forall>j. j \<noteq> 2 - 1 \<longrightarrow> sheet w' ! j = sheet rebook_world ! j"
    "sheet w' ! (2 - 1) ! 0 = PO_No bob"
    "sheet w' ! (2 - 1) ! 10 = CStr ''evt1''"
    "po_counter w' = po_counter rebook_world"
    "\<forall>e. events_delete remote_delete_fails (Event_ID bob) = Some e \<longrightarrow>
           Warning (''Could not delete old event: '' @ error_text e) \<in> set (messages w')"
    by blast
  have a: "length (sheet w') = 3" using w'(2) by (simp add: rebook_world_def example_sheet_def)
  have b: "sheet w' ! 1 ! 0 = CStr ''E000001''" using w'(4) by (simp add: bob_def)
  have c: "sheet w' ! 1 ! 10 = CStr ''evt1''" using w'(5) by simp
  have "sheet w' ! 2 = sheet rebook_world ! 2" using w'(3) by simp
  then have d: "sheet w' ! 2 = row_of_record ann" by (simp add: rebook_world_def example_sheet_def)
  have e: "po_counter w' = 3" using w'(6) by (simp add: rebook_world_def)
  have "events_delete remote_delete_fails (Event_ID bob) = Some (CalendarStoreError ''Not Found'')"
    by (simp add: remote_delete_fails_def)
  with w'(7) have f: "Warning (''Could not delete old event: '' @ error_text (CalendarStoreError ''Not Found'')) \<in> set (messages w')"
    by blast
  then have f': "Warning ''Could not delete old event: Not Found'' \<in> set (messages w')" by simp
  from w'(1) a b c d e f' have "\<exists>w'. booking_page remote_delete_fails example_form Submit_booking rebook_world = (None, w')
         \<and> length (sheet w') = 3
         \<and> sheet w' ! 1 ! 0 = CStr ''E000001''
         \<and> sheet w' ! 1 ! 10 = CStr ''evt1''
         \<and> sheet w' ! 2 = row_of_record ann
         \<and> po_counter w' = 3
         \<and> Warning ''Could not delete old event: Not Found'' \<in> set (messages w')" by blast
  with h1 h2 hd h5 hs show ?thesis by blast
qed

text \<open>
  C5. A confirmed cancellation, when the range update is accepted, sets columns A to K of
  the booking's row to empty strings in place: the sheet keeps its length and every other
  row. With a non-empty Event ID the delete of the calendar event is called first, and a
  failure of it is shown as an error while the row is blanked all the same; with an empty
  Event ID the range update is the only call.
\<close>

theorem view_cancel_blanks_row:
  assumes cc: "current_customer w = Some (i, cust)" and sc: "show_cancel_confirm w"
    and i: "0 < i" and il: "i \<le> length (sheet w)"
    and wr: "sheet_write r (Sheet_update (''A'' @ str_nat i @ '':K'' @ str_nat i)
                [replicate 11 (CStr [])]) = None"
  shows "\<exists>w'. view_page r Yes_cancel w = (None, w')
     \<and> length (sheet w') = length (sheet w)
     \<and> sheet w' ! (i - 1) = replicate 11 (CStr []) @ drop 11 (sheet w ! (i - 1))
     \<and> (\<forall>j. j \<noteq> i - 1 \<longrightarrow> sheet w' ! j = sheet w ! j)
     \<and> (truthy (Event_ID cust) \<longrightarrow>
           calls w' = calls w
             @ [(Events_delete (Event_ID cust), events_delete r (Event_ID cust)),
                (Sheet_update (''A'' @ str_nat i @ '':K'' @ str_nat i) [replicate 11 (CStr [])], None)]
           \<and> (\<forall>e. events_delete r (Event_ID cust) = Some e \<longrightarrow>
                 Error (''Delete failed: '' @ error_text e) \<in> set (messages w')))
     \<and> (\<not> truthy (Event_ID cust) \<longrightarrow>
           calls w' = calls w
             @ [(Sheet_update (''A'' @ str_nat i @ '':K'' @ str_nat i) [replicate 11 (CStr [])], None)])"
proof -
  let ?w = "w\<lparr>messages := messages w @ [Warning ''Are you sure?'']\<rparr>"
  let ?bl = "replicate 11 (CStr [])"
  have wr': "sheet_write r (Sheet_update (a1_range (Some i)) [?bl]) = None"
    using wr by (simp add: a1_range_Some)
  from yes_cancel_ok [OF i wr', of cust ?w]
  obtain w' where w': "yes_cancel r i cust ?w = (None, w')"
    "sheet w' = update_row_range i ?bl (sheet ?w)"
    "calls w' = calls ?w
          @ (if truthy (Event_ID cust)
             then [(Events_delete (Event_ID cust), events_delete r (Event_ID cust))] else [])
          @ [(Sheet_update (a1_range (Some i)) [?bl], None)]"
    "messages w' = messages ?w
          @ (if truthy (Event_ID cust)
             then (case events_delete r (Event_ID cust) of None \<Rightarrow> []
                   | Some e \<Rightarrow> [Error (''Delete failed: '' @ error_text e)])
             else [])
          @ [Success ''Cancelled.'']"
    by blast
  have page: "view_page r Yes_cancel w = (None, w')"
    using cc sc w'(1) by (simp add: view_page_def Let_def)
  have sh: "sheet w' = update_row_range i ?bl (sheet w)" using w'(2) by simp
  have len: "length (sheet w') = length (sheet w)"
    using update_row_range_length [OF i il] sh by simp
  have row: "sheet w' ! (i - 1) = ?bl @ drop 11 (sheet w ! (i - 1))"
    using update_row_range_nth [OF i il, of ?bl] sh by simp
  have oth: "\<forall>j. j \<noteq> i - 1 \<longrightarrow> sheet w' ! j = sheet w ! j"
    using update_row_range_other [OF i il] sh by simp
  have t: "truthy (Event_ID cust) \<longrightarrow>
           calls w' = calls w
             @ [(Events_delete (Event_ID cust), events_delete r (Event_ID cust)),
                (Sheet_update (''A'' @ str_nat i @ '':K'' @ str_nat i) [?bl], None)]
           \<and> (\<forall>e. events_delete r (Event_ID cust) = Some e \<longrightarrow>
                 Error (''Delete failed: '' @ error_text e) \<in> set (messages w'))"
    using w'(3,4) by (simp add: a1_range_Some)
  have f: "\<not> truthy (Event_ID cust) \<longrightarrow>
           calls w' = calls w
             @ [(Sheet_update (''A'' @ str_nat i @ '':K'' @ str_nat i) [?bl], None)]"
    using w'(3) by (simp add: a1_range_Some)
  from page len row oth t f show ?thesis by blast
qed

theorem view_cancel_blanks_row_witness:
  "current_customer confirm_world = Some (2, bob)
   \<and> show_cancel_confirm confirm_world
   \<and> truthy (Event_ID bob)
   \<and> (\<exists>w'. view_page remote_delete_fails Yes_cancel confirm_world = (None, w')
         \<and> length (sheet w') = 3
         \<and> sheet w' ! 1 = replicate 11 (CStr [])
         \<and> sheet w' ! 2 = row_of_record ann
         \<and> Error ''Delete failed: Not Found'' \<in> set (messages w'))"
proof -
  have h1: "current_customer confirm_world = Some (2, bob)" by (simp add: confirm_world_def)
  have h2: "show_cancel_confirm confirm_world" by (simp add: confirm_world_def)
  have h3: "0 < (2::nat)" by simp
  have h4: "2 \<le> length (sheet confirm_world)" by (simp add: confirm_world_def example_sheet_def)
  have h5: "sheet_write remote_delete_fails (Sheet_update (''A'' @ str_nat 2 @ '':K'' @ str_nat 2)
                [replicate 11 (CStr [])]) = None"
    by (simp add: remote_delete_fails_def)
  have t: "truthy (Event_ID bob)" by (simp add: bob_def)
  from view_cancel_blanks_row [OF h1 h2 h3 h4 h5]
  obtain w' where w': "view_page remote_delete_fails Yes_cancel confirm_world = (None, w')"
    "length (sheet w') = length (sheet confirm_world)"
    "sheet w' ! (2 - 1) = replicate 11 (CStr []) @ drop 11 (sheet confirm_world ! (2 - 1))"
    "\<forall>j. j \<noteq> 2 - 1 \<longrightarrow> sheet w' ! j = sheet confirm_world ! j"
    "truthy (Event_ID bob) \<longrightarrow>
           calls w' = calls confirm_world
             @ [(Events_delete (Event_ID bob), events_delete remote_delete_fails (Event_ID bob)),
                (Sheet_update (''A'' @ str_nat 2 @ '':K'' @ str_nat 2) [replicate 11 (CStr [])], None)]
           \<and> (\<forall>e. events_delete remote_delete_fails (Event_ID bob) = Some e \<longrightarrow>
                 Error (''Delete failed: '' @ error_text e) \<in> set (messages w'))"
    by blast
  have a: "length (sheet w') = 3" using w'(2) by (simp add: confirm_world_def example_sheet_def)
  have b: "sheet w' ! 1 = replicate 11 (CStr [])"
    using w'(3) by (simp add: confirm_world_def example_sheet_def row_of_record_def)
  have "sheet w' ! 2 = sheet confirm_world ! 2" using w'(4) by simp
  then have c: "sheet w' ! 2 = row_of_record ann" by (simp add: confirm_world_def example_sheet_def)
  have "events_delete remote_delete_fails (Event_ID bob) = Some (CalendarStoreError ''Not Found'')"
    by (simp add: remote_delete_fails_def)
  with w'(5) t have "Error (''Delete failed: '' @ error_text (CalendarStoreError ''Not Found'')) \<in> set (messages w')"
    by blast
  then have d: "Error ''Delete failed: Not Found'' \<in> set (messages w')" by simp
  from w'(1) a b c d have "\<exists>w'. view_page remote_delete_fails Yes_cancel confirm_world = (None, w')
         \<and> length (sheet w') = 3
         \<and> sheet w' ! 1 = replicate 11 (CStr [])
         \<and> sheet w' ! 2 = row_of_record ann
         \<and> Error ''Delete failed: Not Found'' \<in> set (messages w')" by blast
  with h1 h2 t show ?thesis by blast
qed

text \<open>
  C6. When the insert of the calendar event fails during a submit, of a new booking or of
  a rebook, the run ends with that error: the sheet and the PO counter are as before, and
  the calls made are calendar calls only, so no row is appended and no range is updated.
\<close>

theorem insert_failure_no_row_write:
  assumes "events_insert r (event_body po (name f) (phone f) (from_addr f) (to_addr f) (date f)
              (start_time f) end_time (service f) (notes f)) = Inl e"
  shows "\<exists>w' cs. submit_booking r po f end_time event_id idx w = (Some e, w')
           \<and> sheet w' = sheet w \<and> po_counter w' = po_counter w
           \<and> calls w' = calls w @ cs \<and> list_all (\<lambda>c. \<not> is_sheet_call (fst c)) cs
           \<and> assigned_pos w' = assigned_pos w"
proof -
  from submit_insert_fails [OF assms, of event_id idx w]
  obtain w' where w': "submit_booking r po f end_time event_id idx w = (Some e, w')"
    "sheet w' = sheet w" "po_counter w' = po_counter w"
    "calls w' = calls w
                @ (if mode w = New_booking then [] else [(Events_delete event_id, events_delete r event_id)])
                @ [(Events_insert (event_body po (name f) (phone f) (from_addr f) (to_addr f) (date f)
                      (start_time f) end_time (service f) (notes f)), Some e)]"
    by blast
  let ?cs = "(if mode w = New_booking then [] else [(Events_delete event_id, events_delete r event_id)])
                @ [(Events_insert (event_body po (name f) (phone f) (from_addr f) (to_addr f) (date f)
                      (start_time f) end_time (service f) (notes f)), Some e)]"
  have "list_all (\<lambda>c. \<not> is_sheet_call (fst c)) ?cs" by simp
  moreover have "assigned_pos w' = assigned_pos w" using w'(4) by (simp add: assigned_pos_def)
  ultimately show ?thesis using w' by blast
qed

theorem insert_failure_no_row_write_witness:
  "events_insert remote_insert_fails
       (event_body (PO_No bob) (name example_form) (phone example_form) (from_addr example_form)
          (to_addr example_form) (date example_form) (start_time example_form)
          (plus_four_hours (start_time example_form)) (service example_form) (notes example_form))
      = Inl (CalendarStoreError ''Backend Error'')
   \<and> (\<exists>w'. submit_booking remote_insert_fails (PO_No bob) example_form
              (plus_four_hours (start_time example_form)) (Event_ID bob) (Some 2) rebook_world
            = (Some (CalendarStoreError ''Backend Error''), w')
          \<and> sheet w' = example_sheet \<and> po_counter w' = 3 \<and> assigned_pos w' = [])"
proof -
  have h: "events_insert remote_insert_fails
       (event_body (PO_No bob) (name example_form) (phone example_form) (from_addr example_form)
          (to_addr example_form) (date example_form) (start_time example_form)
          (plus_four_hours (start_time example_form)) (service example_form) (notes example_form))
      = Inl (CalendarStoreError ''Backend Error'')"
    by (simp add: remote_insert_fails_def)
  from insert_failure_no_row_write [OF h, of "Event_ID bob" "Some 2" rebook_world]
  obtain w' where w': "submit_booking remote_insert_fails (PO_No bob) example_form
              (plus_four_hours (start_time example_form)) (Event_ID bob) (Some 2) rebook_world
            = (Some (CalendarStoreError ''Backend Error''), w')"
     "sheet w' = sheet rebook_world" "po_counter w' = po_counter rebook_world"
     "assigned_pos w' = assigned_pos rebook_world"
    by blast
  have "sheet w' = example_sheet" "po_counter w' = 3" "assigned_pos w' = []"
    using w'(2,3,4) by (simp_all add: rebook_world_def assigned_pos_def)
  with w'(1) h show ?thesis by blast
qed



section \<open>PO numbers over a session: proofs\<close>

lemma sorted_wrt_less_distinct: "sorted_wrt (<) (ys :: nat list) \<Longrightarrow> distinct ys"
  by (induction ys) auto

lemma po_inv_distinct: "po_inv w \<Longrightarrow> distinct (assigned_pos w)"
proof -
  assume "po_inv w"
  then have "distinct (map po_sequence (assigned_pos w))"
    by (simp add: po_inv_def sorted_wrt_less_distinct)
  then show ?thesis by (simp add: distinct_map)
qed

lemma po_inv_fresh: "po_inv w \<Longrightarrow> generate_po_number w \<notin> set (assigned_pos w)"
proof
  assume inv: "po_inv w" and "generate_po_number w \<in> set (assigned_pos w)"
  then have "po_sequence (generate_po_number w) < po_counter w"
    by (auto simp: po_inv_def list_all_iff)
  then show False by (simp add: po_sequence_generate)
qed

lemma po_inv_same:
  "po_inv w \<Longrightarrow> assigned_pos w' = assigned_pos w \<Longrightarrow> po_counter w' = po_counter w \<Longrightarrow> po_inv w'"
  by (simp add: po_inv_def)

lemma po_inv_next:
  assumes "po_inv w" "assigned_pos w' = assigned_pos w @ [generate_po_number w]"
    "po_counter w' = po_counter w + 1"
  shows "po_inv w'"
proof -
  have a: "\<forall>po \<in> set (assigned_pos w). po_sequence po < po_counter w
             \<and> po = ''E'' @ zfill 6 (str_nat (po_sequence po))"
    using assms(1) by (simp add: po_inv_def list_all_iff)
  have "sorted_wrt (<) (map po_sequence (assigned_pos w) @ [po_sequence (generate_po_number w)])"
    using assms(1) a by (simp add: po_inv_def sorted_wrt_append po_sequence_generate)
  moreover have "list_all (\<lambda>po. po_sequence po < po_counter w + 1
                \<and> po = ''E'' @ zfill 6 (str_nat (po_sequence po)))
       (assigned_pos w @ [generate_po_number w])"
  proof -
    have g: "po_sequence (generate_po_number w) = po_counter w"
      by (rule po_sequence_generate)
    have fmt: "generate_po_number w
        = ''E'' @ zfill 6 (str_nat (po_sequence (generate_po_number w)))"
      unfolding g by (simp add: generate_po_number_def)
    have old: "list_all (\<lambda>po. po_sequence po < po_counter w + 1
                \<and> po = ''E'' @ zfill 6 (str_nat (po_sequence po))) (assigned_pos w)"
      unfolding list_all_iff
    proof
      fix po assume "po \<in> set (assigned_pos w)"
      with a have "po_sequence po < po_counter w"
        "po = ''E'' @ zfill 6 (str_nat (po_sequence po))" by blast+
      then show "po_sequence po < po_counter w + 1
          \<and> po = ''E'' @ zfill 6 (str_nat (po_sequence po))" by simp
    qed
    have lt: "po_sequence (generate_po_number w) < po_counter w + 1"
      unfolding g by simp
    have new: "list_all (\<lambda>po. po_sequence po < po_counter w + 1
                \<and> po = ''E'' @ zfill 6 (str_nat (po_sequence po))) [generate_po_number w]"
      unfolding list_all_iff
    proof
      fix po assume "po \<in> set [generate_po_number w]"
      then have eq: "po = generate_po_number w" by simp
      show "po_sequence po < po_counter w + 1
          \<and> po = ''E'' @ zfill 6 (str_nat (po_sequence po))"
        unfolding eq using lt fmt by (rule conjI)
    qed
    from old new show ?thesis by (simp only: list_all_append)
  qed
  ultimately show ?thesis using assms(2,3) by (simp add: po_inv_def)
qed

lemma po_inv_format:
  "po_inv w \<Longrightarrow> list_all (\<lambda>po. po = ''E'' @ zfill 6 (str_nat (po_sequence po))) (assigned_pos w)"
  by (simp add: po_inv_def list_all_iff)

text \<open>What a submit does to the bookkeeping.\<close>

lemma submit_booking_effect:
  assumes "mode w = New_booking \<longrightarrow> po = CStr (generate_po_number w)"
  shows "(assigned_pos (snd (submit_booking r po f et ev idx w)) = assigned_pos w
          \<and> po_counter (snd (submit_booking r po f et ev idx w)) = po_counter w)
       \<or> (assigned_pos (snd (submit_booking r po f et ev idx w)) = assigned_pos w @ [generate_po_number w]
          \<and> po_counter (snd (submit_booking r po f et ev idx w)) = po_counter w + 1)"
  using assms
  by (auto simp: submit_booking_def create_calendar_event_eq update_calendar_event_eq
      append_booking_to_sheet_eq update_booking_in_sheet_def sheet_range_update_def Let_def
      back_to_search_def assigned_pos_def row_values_def
      split: sum.splits option.splits)

lemma yes_cancel_effect:
  "assigned_pos (snd (yes_cancel r i cust w)) = assigned_pos w
   \<and> po_counter (snd (yes_cancel r i cust w)) = po_counter w"
  by (auto simp: yes_cancel_def delete_calendar_event_eq sheet_range_update_def Let_def
      assigned_pos_def split: option.splits)

lemma view_page_effect:
  "assigned_pos (snd (view_page r b w)) = assigned_pos w
   \<and> po_counter (snd (view_page r b w)) = po_counter w"
proof (cases "current_customer w")
  case None
  then show ?thesis by (simp add: view_page_def)
next
  case (Some a)
  obtain i cust where a: "a = (i, cust)" by (cases a)
  show ?thesis
    using Some a
    by (auto simp: view_page_def Let_def back_to_search_def assigned_pos_def yes_cancel_def
        delete_calendar_event_eq sheet_range_update_def
        split: option.splits prod.splits if_splits)
qed

lemma search_page_effect:
  "assigned_pos (search_page records b w) = assigned_pos w
   \<and> po_counter (search_page records b w) = po_counter w"
  by (auto simp: search_page_def Let_def assigned_pos_def
      split: search_button.splits prod.splits option.splits)

lemma booking_page_effect:
  "(assigned_pos (snd (booking_page r f b w)) = assigned_pos w
          \<and> po_counter (snd (booking_page r f b w)) = po_counter w)
       \<or> (assigned_pos (snd (booking_page r f b w)) = assigned_pos w @ [generate_po_number w]
          \<and> po_counter (snd (booking_page r f b w)) = po_counter w + 1)"
proof -
  have s: "\<And>po et ev idx. mode w = New_booking \<longrightarrow> po = CStr (generate_po_number w) \<Longrightarrow>
    (assigned_pos (snd (submit_booking r po f et ev idx w)) = assigned_pos w
          \<and> po_counter (snd (submit_booking r po f et ev idx w)) = po_counter w)
       \<or> (assigned_pos (snd (submit_booking r po f et ev idx w)) = assigned_pos w @ [generate_po_number w]
          \<and> po_counter (snd (submit_booking r po f et ev idx w)) = po_counter w + 1)"
    by (rule submit_booking_effect)
  show ?thesis
  proof (cases "b = Submit_booking")
    case False
    then show ?thesis
      by (auto simp: booking_page_def Let_def back_to_search_def assigned_pos_def
          split: sum.splits option.splits prod.splits)
  next
    case True
    show ?thesis
    proof (cases "mode w = Rebook")
      case r: True
      show ?thesis
      proof (cases "current_customer w")
        case None
        with True r show ?thesis by (simp add: booking_page_def)
      next
        case (Some a)
        obtain i cust where a: "a = (i, cust)" by (cases a)
        from r have nn: "mode w = New_booking \<longrightarrow> PO_No cust = CStr (generate_po_number w)" by simp
        show ?thesis
          using True r Some a s [OF nn, of "plus_four_hours (start_time f)" "Event_ID cust" "Some i"]
          by (auto simp: booking_page_def Let_def assigned_pos_def split: sum.splits)
      qed
    next
      case nr: False
      have nn: "mode w = New_booking \<longrightarrow> CStr (generate_po_number w) = CStr (generate_po_number w)" by simp
      show ?thesis
        using True nr s [OF nn, of "plus_four_hours (start_time f)" "CStr []" None]
        by (auto simp: booking_page_def Let_def assigned_pos_def split: sum.splits)
    qed
  qed
qed

lemma step_effect:
  "(assigned_pos (step w ra) = assigned_pos w \<and> po_counter (step w ra) = po_counter w)
   \<or> (assigned_pos (step w ra) = assigned_pos w @ [generate_po_number w]
       \<and> po_counter (step w ra) = po_counter w + 1)"
proof -
  obtain r a where ra: "ra = (r, a)" by (cases ra)
  show ?thesis
  proof (cases a)
    case (On_search records b)
    with ra show ?thesis using search_page_effect [of records b w] by simp
  next
    case (On_view b)
    with ra show ?thesis using view_page_effect [of r b w] by simp
  next
    case (On_booking f b)
    with ra show ?thesis using booking_page_effect [of r f b w] by auto
  qed
qed

lemma step_po_inv: "po_inv w \<Longrightarrow> po_inv (step w ra)"
  using step_effect [of w ra] po_inv_same po_inv_next by blast

lemma run_po_inv: "po_inv w \<Longrightarrow> po_inv (run w acts)"
  unfolding run_def by (induction acts arbitrary: w) (simp_all add: step_po_inv)

lemma init_po_inv: "po_inv (init_world records rows)"
  by (simp add: po_inv_def init_world_def assigned_pos_def)

lemma step_counter_mono: "po_counter w \<le> po_counter (step w ra)"
  using step_effect [of w ra] by auto

lemma run_counter_mono: "po_counter w \<le> po_counter (run w acts)"
  unfolding run_def
proof (induction acts arbitrary: w)
  case Nil
  then show ?case by simp
next
  case (Cons a acts)
  have "po_counter w \<le> po_counter (step w a)" by (rule step_counter_mono)
  also have "\<dots> \<le> po_counter (foldl step (step w a) acts)" by (rule Cons.IH)
  finally show ?case by simp
qed

text \<open>Single interactions, for following a session step by step.\<close>

lemma step_new_booking_button:
  "mode w = Search \<Longrightarrow> step w (r, On_search records New_booking_button) = w\<lparr>mode := New_booking\<rparr>"
  by (simp add: search_page_def)

lemma step_search_found:
  "mode w = Search \<Longrightarrow> find_customer records nm ph = (Some i, Some c) \<Longrightarrow>
     step w (r, On_search records (Search_submit nm ph))
       = w\<lparr>current_customer := Some (i, c), mode := View\<rparr>"
  by (simp add: search_page_def)

lemma step_cancel_booking:
  "mode w = View \<Longrightarrow> current_customer w = Some (i, c) \<Longrightarrow>
     step w (r, On_view Cancel_booking)
       = w\<lparr>show_cancel_confirm := True, messages := messages w @ [Warning ''Are you sure?'']\<rparr>"
  by (simp add: view_page_def Let_def)

lemma step_yes_cancel_quiet:
  "mode w = View \<Longrightarrow> current_customer w = Some (i, c) \<Longrightarrow> show_cancel_confirm w \<Longrightarrow> 0 < i \<Longrightarrow>
     assigned_pos (step w (quiet_remote evs, On_view Yes_cancel)) = assigned_pos w
     \<and> po_counter (step w (quiet_remote evs, On_view Yes_cancel)) = po_counter w
     \<and> mode (step w (quiet_remote evs, On_view Yes_cancel)) = Search
     \<and> sheet (step w (quiet_remote evs, On_view Yes_cancel))
         = update_row_range i (replicate 11 (CStr [])) (sheet w)"
  by (simp add: view_page_def Let_def yes_cancel_def delete_calendar_event_eq
      sheet_range_update_eq quiet_remote_def assigned_pos_def)

lemma step_submit_new_quiet:
  "mode w = New_booking \<Longrightarrow>
     assigned_pos (step w (quiet_remote [], On_booking f Submit_booking))
        = assigned_pos w @ [generate_po_number w]
     \<and> po_counter (step w (quiet_remote [], On_booking f Submit_booking)) = po_counter w + 1
     \<and> mode (step w (quiet_remote [], On_booking f Submit_booking)) = Search
     \<and> sheet (step w (quiet_remote [], On_booking f Submit_booking))
         = sheet w @ [row_values (CStr (generate_po_number w)) f (plus_four_hours (start_time f)) ''evt1'']"
proof -
  have s: "get_available_slots (quiet_remote []) (date f) = Inr all_slots"
    by (rule slots_quiet_like) (simp add: quiet_remote_def)
  have e: "events_insert (quiet_remote []) = (\<lambda>body. Inr ''evt1'')"
    "sheet_write (quiet_remote []) = (\<lambda>c. None)"
    by (simp_all add: quiet_remote_def)
  assume "mode w = New_booking"
  then show ?thesis
    by (simp add: booking_page_def s all_slots_def Let_def submit_booking_def
        create_calendar_event_eq append_booking_to_sheet_eq e back_to_search_def
        assigned_pos_def row_values_def append_row_def service_options_def)
qed

lemma example_run_facts:
  "assigned_pos (run (init_world [bob, ann] example_sheet) example_run) = [''E000003'', ''E000004'']
   \<and> sheet (run (init_world [bob, ann] example_sheet) example_run) ! 1 = replicate 11 (CStr [])"
proof -
  define w0 where "w0 = init_world [bob, ann] example_sheet"
  define w1 where "w1 = step w0 (quiet_remote [], On_search [bob, ann] New_booking_button)"
  define w2 where "w2 = step w1 (quiet_remote [], On_booking example_form Submit_booking)"
  define w3 where "w3 = step w2 (quiet_remote [], On_search [bob, ann] (Search_submit ''bob'' []))"
  define w4 where "w4 = step w3 (quiet_remote [], On_view Cancel_booking)"
  define w5 where "w5 = step w4 (quiet_remote [], On_view Yes_cancel)"
  define w6 where "w6 = step w5 (quiet_remote [], On_search [bob, ann] New_booking_button)"
  define w7 where "w7 = step w6 (quiet_remote [], On_booking example_form Submit_booking)"
  have r: "run (init_world [bob, ann] example_sheet) example_run = w7"
    by (simp add: run_def example_run_def w0_def w1_def w2_def w3_def w4_def w5_def w6_def w7_def
        del: step.simps)
  have f0: "mode w0 = Search" "po_counter w0 = 3" "assigned_pos w0 = []" "sheet w0 = example_sheet"
    by (simp_all add: w0_def init_world_def assigned_pos_def)
  have e1: "w1 = w0\<lparr>mode := New_booking\<rparr>"
    unfolding w1_def by (rule step_new_booking_button [OF f0(1)])
  have f1: "mode w1 = New_booking" "po_counter w1 = 3" "assigned_pos w1 = []" "sheet w1 = example_sheet"
    using f0 by (simp_all add: e1 assigned_pos_def)
  have g1: "generate_po_number w1 = ''E000003''"
    by (simp add: generate_po_number_def f1 zfill_def str_nat_lt digit_char_def eval_nat_numeral)
  note s2 = step_submit_new_quiet [OF f1(1), of example_form, folded w2_def]
  have f2: "mode w2 = Search" "po_counter w2 = 4" "assigned_pos w2 = [''E000003'']"
    "length (sheet w2) = 4" "sheet w2 ! 1 = row_of_record bob"
    using s2 f1 g1 by (simp_all add: example_sheet_def)
  have fc: "find_customer [bob, ann] ''bob'' [] = (Some 2, Some bob)"
    by (simp add: find_customer_def bob_def lower_def lower_char_def)
  have e3: "w3 = w2\<lparr>current_customer := Some (2, bob), mode := View\<rparr>"
    unfolding w3_def by (rule step_search_found [OF f2(1) fc])
  have f3: "mode w3 = View" "current_customer w3 = Some (2, bob)" "po_counter w3 = 4"
    "assigned_pos w3 = [''E000003'']" "sheet w3 = sheet w2"
    using f2 by (simp_all add: e3 assigned_pos_def)
  have e4: "w4 = w3\<lparr>show_cancel_confirm := True, messages := messages w3 @ [Warning ''Are you sure?'']\<rparr>"
    unfolding w4_def by (rule step_cancel_booking [OF f3(1,2)])
  have f4: "mode w4 = View" "current_customer w4 = Some (2, bob)" "show_cancel_confirm w4"
    "po_counter w4 = 4" "assigned_pos w4 = [''E000003'']" "sheet w4 = sheet w2"
    using f3 by (simp_all add: e4 assigned_pos_def)
  have p2: "0 < (2::nat)" by simp
  note s5 = step_yes_cancel_quiet [OF f4(1,2,3) p2, of "[]", folded w5_def]
  have f5: "mode w5 = Search" "po_counter w5 = 4" "assigned_pos w5 = [''E000003'']"
    "sheet w5 = update_row_range 2 (replicate 11 (CStr [])) (sheet w2)"
    using s5 f4 by simp_all
  have l2: "2 \<le> length (sheet w2)" using f2(4) by simp
  have row5: "sheet w5 ! 1 = replicate 11 (CStr [])"
    using update_row_range_nth [OF p2 l2, of "replicate 11 (CStr [])"] f5(4) f2(5)
    by (simp add: row_of_record_def)
  have len5: "length (sheet w5) = 4"
    using update_row_range_length [OF p2 l2] f5(4) f2(4) by simp
  have e6: "w6 = w5\<lparr>mode := New_booking\<rparr>"
    unfolding w6_def by (rule step_new_booking_button [OF f5(1)])
  have f6: "mode w6 = New_booking" "po_counter w6 = 4" "assigned_pos w6 = [''E000003'']"
    "sheet w6 = sheet w5"
    using f5 by (simp_all add: e6 assigned_pos_def)
  have g6: "generate_po_number w6 = ''E000004''"
    by (simp add: generate_po_number_def f6 zfill_def str_nat_lt digit_char_def eval_nat_numeral)
  note s7 = step_submit_new_quiet [OF f6(1), of example_form, folded w7_def]
  have f7: "assigned_pos w7 = [''E000003'', ''E000004'']"
    using s7 f6 g6 by simp
  have "sheet w7 ! 1 = sheet w5 ! 1"
    using s7 f6(4) len5 by (simp add: nth_append)
  with row5 f7 r show ?thesis by simp
qed

text \<open>
  C7. Within one session, that is one \<open>st.session_state\<close>, whose counter starts at the
  number of records plus one, the PO numbers of the rows appended so far are pairwise
  different, whatever interactions of the session (searches, new bookings, rebooks,
  cancellations, with any answers of the stores) came before, and the PO number the next
  new booking would get is none of them. An interaction on the view page, a cancellation
  among them, changes neither the counter nor the PO numbers assigned; every interaction
  either assigns nothing and leaves the counter, or assigns the PO number of the current
  counter and advances the counter by 1.
\<close>

theorem po_number_never_reused:
  "distinct (assigned_pos (run (init_world records rows) acts))
   \<and> generate_po_number (run (init_world records rows) acts)
        \<notin> set (assigned_pos (run (init_world records rows) acts))
   \<and> po_counter (init_world records rows) = length records + 1
   \<and> assigned_pos (init_world records rows) = []
   \<and> assigned_pos (step w (r, On_view b)) = assigned_pos w
   \<and> po_counter (step w (r, On_view b)) = po_counter w
   \<and> (assigned_pos (step w ra) = assigned_pos w \<and> po_counter (step w ra) = po_counter w
        \<or> assigned_pos (step w ra) = assigned_pos w @ [generate_po_number w]
           \<and> po_counter (step w ra) = po_counter w + 1)"
proof -
  have inv: "po_inv (run (init_world records rows) acts)"
    by (rule run_po_inv [OF init_po_inv])
  have a: "distinct (assigned_pos (run (init_world records rows) acts))"
    using inv by (rule po_inv_distinct)
  have b: "generate_po_number (run (init_world records rows) acts)
        \<notin> set (assigned_pos (run (init_world records rows) acts))"
    using inv by (rule po_inv_fresh)
  have c: "po_counter (init_world records rows) = length records + 1"
    "assigned_pos (init_world records rows) = []"
    by (simp_all add: init_world_def assigned_pos_def)
  have d: "assigned_pos (step w (r, On_view b)) = assigned_pos w
     \<and> po_counter (step w (r, On_view b)) = po_counter w"
    using view_page_effect [of r b w] by simp
  from a b c d step_effect [of w ra] show ?thesis by blast
qed

theorem po_number_never_reused_witness:
  "distinct (assigned_pos (run (init_world [bob, ann] example_sheet) example_run))
   \<and> assigned_pos (run (init_world [bob, ann] example_sheet) example_run) = [''E000003'', ''E000004'']
   \<and> sheet (run (init_world [bob, ann] example_sheet) example_run) ! 1 = replicate 11 (CStr [])
   \<and> po_counter (init_world [bob, ann] example_sheet) = 3"
proof -
  have "distinct (assigned_pos (run (init_world [bob, ann] example_sheet) example_run))"
    "po_counter (init_world [bob, ann] example_sheet) = length [bob, ann] + 1"
    using po_number_never_reused [of "[bob, ann]" example_sheet example_run] by blast+
  with example_run_facts show ?thesis by simp
qed

text \<open>
  C9. \<open>generate_po_number\<close> returns E000001 at counter 1 and E123456 at counter 123456;
  in general it returns the letter E followed by the decimal numeral of the counter,
  padded with zeros on the left to six digits (seven characters in all while the counter
  is below one million), so that the digits read back as the counter. No interaction
  lowers a session's counter, and the sequence numbers of the PO numbers assigned within
  one session, each of them of this format, are strictly increasing in the order of
  assignment.
\<close>

theorem po_number_format_increasing:
  "generate_po_number (w\<lparr>po_counter := 1\<rparr>) = ''E000001''
   \<and> generate_po_number (w\<lparr>po_counter := 123456\<rparr>) = ''E123456''
   \<and> generate_po_number w
        = ''E'' @ replicate (6 - length (str_nat (po_counter w))) CHR ''0'' @ str_nat (po_counter w)
   \<and> nat_of_digits (str_nat (po_counter w)) = po_counter w
   \<and> (\<forall>c \<in> set (tl (generate_po_number w)). is_digit c)
   \<and> (po_counter w < 1000000 \<longrightarrow> length (generate_po_number w) = 7)
   \<and> po_sequence (generate_po_number w) = po_counter w
   \<and> po_counter w \<le> po_counter (step w ra)
   \<and> po_counter w \<le> po_counter (run w acts)
   \<and> sorted_wrt (<) (map po_sequence (assigned_pos (run (init_world records rows) acts)))
   \<and> list_all (\<lambda>po. po = ''E'' @ zfill 6 (str_nat (po_sequence po)))
        (assigned_pos (run (init_world records rows) acts))"
proof -
  have inv: "po_inv (run (init_world records rows) acts)"
    by (rule run_po_inv [OF init_po_inv])
  have a: "generate_po_number (w\<lparr>po_counter := 1\<rparr>) = ''E000001''" by (rule generate_1)
  have b: "generate_po_number (w\<lparr>po_counter := 123456\<rparr>) = ''E123456''" by (rule generate_123456)
  have c: "generate_po_number w
        = ''E'' @ replicate (6 - length (str_nat (po_counter w))) CHR ''0'' @ str_nat (po_counter w)"
    by (simp add: generate_po_number_def zfill_def)
  have d: "nat_of_digits (str_nat (po_counter w)) = po_counter w" by (rule nat_of_digits_str_nat)
  have e: "\<forall>c \<in> set (tl (generate_po_number w)). is_digit c" using digits_generate by blast
  have f: "po_counter w < 1000000 \<longrightarrow> length (generate_po_number w) = 7"
    using length_generate by blast
  have g: "po_sequence (generate_po_number w) = po_counter w" by (rule po_sequence_generate)
  have h: "po_counter w \<le> po_counter (step w ra)" by (rule step_counter_mono)
  have i: "po_counter w \<le> po_counter (run w acts)" by (rule run_counter_mono)
  have j: "sorted_wrt (<) (map po_sequence (assigned_pos (run (init_world records rows) acts)))"
    using inv by (simp add: po_inv_def)
  have k: "list_all (\<lambda>po. po = ''E'' @ zfill 6 (str_nat (po_sequence po)))
        (assigned_pos (run (init_world records rows) acts))"
    using inv by (rule po_inv_format)
  from a b c d e f g h i j k show ?thesis by blast
qed

theorem po_number_format_increasing_witness:
  "po_counter rebook_world < 1000000
   \<and> generate_po_number rebook_world = ''E000003''
   \<and> length (generate_po_number rebook_world) = 7
   \<and> generate_po_number (rebook_world\<lparr>po_counter := 123456\<rparr>) = ''E123456''
   \<and> map po_sequence (assigned_pos (run (init_world [bob, ann] example_sheet) example_run)) = [3, 4]
   \<and> sorted_wrt (<) (map po_sequence (assigned_pos (run (init_world [bob, ann] example_sheet) example_run)))"
proof -
  note t = po_number_format_increasing [of rebook_world _ example_run "[bob, ann]" example_sheet]
  have lt: "po_counter rebook_world < 1000000" by (simp add: rebook_world_def)
  have "po_counter rebook_world < 1000000 \<longrightarrow> length (generate_po_number rebook_world) = 7"
    using t by blast
  with lt have len: "length (generate_po_number rebook_world) = 7" by blast
  have g: "generate_po_number rebook_world = ''E000003''"
    by (simp add: generate_po_number_def rebook_world_def zfill_def str_nat_lt digit_char_def
        eval_nat_numeral)
  have g2: "generate_po_number (rebook_world\<lparr>po_counter := 123456\<rparr>) = ''E123456''"
    using t by blast
  have srt: "sorted_wrt (<) (map po_sequence (assigned_pos (run (init_world [bob, ann] example_sheet) example_run)))"
    using t by blast
  have "assigned_pos (run (init_world [bob, ann] example_sheet) example_run) = [''E000003'', ''E000004'']"
    using example_run_facts by blast
  then have m: "map po_sequence (assigned_pos (run (init_world [bob, ann] example_sheet) example_run)) = [3, 4]"
    by (simp add: po_sequence_def nat_of_digits_def digit_val_def)
  from lt g len g2 m srt show ?thesis by blast
qed

section \<open>PO numbers across the sessions of a process\<close>

lemma process_interaction:
  "k < length (sessions p) \<Longrightarrow>
     process_step p (Interaction k r a)
       = \<lparr>store_sheet = sheet (step (enter p (sessions p ! k)) (r, a)),
          store_calls = calls (step (enter p (sessions p ! k)) (r, a)),
          sessions = (sessions p)[k := step (enter p (sessions p ! k)) (r, a)]\<rparr>"
  by (simp add: Let_def)

lemma enter_fields:
  "mode (enter p w) = mode w" "po_counter (enter p w) = po_counter w"
  "assigned_pos (enter p w) = process_assigned p"
  "generate_po_number (enter p w) = generate_po_number w"
  by (simp_all add: enter_def assigned_pos_def process_assigned_def generate_po_number_def)

lemma process_new_booking_button:
  assumes "k < length (sessions p)" "mode (sessions p ! k) = Search"
  shows "process_assigned (process_step p (Interaction k r (On_search records New_booking_button)))
           = process_assigned p
     \<and> sessions (process_step p (Interaction k r (On_search records New_booking_button)))
           = (sessions p)[k := (enter p (sessions p ! k))\<lparr>mode := New_booking\<rparr>]"
proof -
  have m: "mode (enter p (sessions p ! k)) = Search" using assms(2) by (simp add: enter_fields)
  show ?thesis
    unfolding process_interaction [OF assms(1)] step_new_booking_button [OF m]
    by (simp add: process_assigned_def enter_def)
qed

lemma process_submit_new_quiet:
  assumes "k < length (sessions p)" "mode (sessions p ! k) = New_booking"
  shows "process_assigned (process_step p (Interaction k (quiet_remote []) (On_booking f Submit_booking)))
           = process_assigned p @ [generate_po_number (sessions p ! k)]
     \<and> length (sessions (process_step p (Interaction k (quiet_remote []) (On_booking f Submit_booking))))
           = length (sessions p)
     \<and> (\<forall>j. j \<noteq> k \<longrightarrow>
           sessions (process_step p (Interaction k (quiet_remote []) (On_booking f Submit_booking))) ! j
             = sessions p ! j)"
proof -
  have m: "mode (enter p (sessions p ! k)) = New_booking" using assms(2) by (simp add: enter_fields)
  note s = step_submit_new_quiet [OF m, of f]
  have "process_assigned (process_step p (Interaction k (quiet_remote []) (On_booking f Submit_booking)))
      = assigned_pos (step (enter p (sessions p ! k)) (quiet_remote [], On_booking f Submit_booking))"
    unfolding process_interaction [OF assms(1)]
    by (simp add: process_assigned_def assigned_pos_def)
  also have "\<dots> = process_assigned p @ [generate_po_number (sessions p ! k)]"
    using s by (simp add: enter_fields)
  finally show ?thesis
    unfolding process_interaction [OF assms(1)] by simp
qed

lemma generate_3: "po_counter w = 3 \<Longrightarrow> generate_po_number w = ''E000003''"
  by (simp add: generate_po_number_def zfill_def str_nat_lt digit_char_def eval_nat_numeral)

lemma two_sessions_assigned:
  "process_assigned (process_run example_process two_sessions) = [''E000003'', ''E000003'']"
proof -
  define s0 where "s0 = enter example_process (init_world [bob, ann] [])"
  define p2 where "p2 = example_process\<lparr>sessions := [s0, s0]\<rparr>"
  define p3 where "p3 = process_step p2 (Interaction 0 (quiet_remote []) (On_search [bob, ann] New_booking_button))"
  define p4 where "p4 = process_step p3 (Interaction 0 (quiet_remote []) (On_booking example_form Submit_booking))"
  define p5 where "p5 = process_step p4 (Interaction 1 (quiet_remote []) (On_search [bob, ann] New_booking_button))"
  define p6 where "p6 = process_step p5 (Interaction 1 (quiet_remote []) (On_booking example_form Submit_booking))"
  have start: "process_step (process_step example_process (Start_session [bob, ann]))
      (Start_session [bob, ann]) = p2"
    by (simp add: p2_def s0_def example_process_def enter_def)
  have r: "process_run example_process two_sessions = p6"
    unfolding process_run_def two_sessions_def p6_def p5_def p4_def p3_def start [symmetric]
    by (simp del: process_step.simps)
  have f0: "mode s0 = Search" "po_counter s0 = 3"
    by (simp_all add: s0_def enter_def init_world_def)
  have f2: "length (sessions p2) = 2" "sessions p2 ! 0 = s0" "sessions p2 ! 1 = s0"
    "process_assigned p2 = []"
    by (simp_all add: p2_def process_assigned_def example_process_def)
  have k0: "0 < length (sessions p2)" using f2(1) by simp
  have m0: "mode (sessions p2 ! 0) = Search" using f2(2) f0(1) by simp
  note n3 = process_new_booking_button [OF k0 m0, of "quiet_remote []" "[bob, ann]", folded p3_def]
  have f3: "length (sessions p3) = 2" "mode (sessions p3 ! 0) = New_booking"
    "po_counter (sessions p3 ! 0) = 3" "sessions p3 ! 1 = s0" "process_assigned p3 = []"
    using n3 f2 f0 by (simp_all add: enter_def)
  have k3: "0 < length (sessions p3)" using f3(1) by simp
  note n4 = process_submit_new_quiet [OF k3 f3(2), of example_form, folded p4_def]
  have g3: "generate_po_number (sessions p3 ! 0) = ''E000003''"
    by (rule generate_3 [OF f3(3)])
  have f4: "length (sessions p4) = 2" "sessions p4 ! 1 = s0" "process_assigned p4 = [''E000003'']"
    using n4 f3 g3 by simp_all
  have k4: "1 < length (sessions p4)" using f4(1) by simp
  have m4: "mode (sessions p4 ! 1) = Search" using f4(2) f0(1) by simp
  note n5 = process_new_booking_button [OF k4 m4, of "quiet_remote []" "[bob, ann]", folded p5_def]
  have f5: "length (sessions p5) = 2" "mode (sessions p5 ! 1) = New_booking"
    "po_counter (sessions p5 ! 1) = 3" "process_assigned p5 = [''E000003'']"
    using n5 f4 f0 by (simp_all add: enter_def)
  have k5: "1 < length (sessions p5)" using f5(1) by simp
  note n6 = process_submit_new_quiet [OF k5 f5(2), of example_form, folded p6_def]
  have g5: "generate_po_number (sessions p5 ! 1) = ''E000003''"
    by (rule generate_3 [OF f5(3)])
  have "process_assigned p6 = [''E000003'', ''E000003'']"
    using n6 f5 g5 by simp
  with r show ?thesis by simp
qed

lemma example_records: "map record_of_row (tl example_sheet) = [bob, ann]"
  by (simp add: example_sheet_def record_of_row_def cell_at_def row_of_record_def bob_def ann_def)

text \<open>
  C7, beyond one session. The counter lives in \<open>st.session_state\<close>, so each session of
  the process has its own. Two sessions that both start while the sheet holds the two
  example records are both seeded with 3; each then books once, and both rows carry
  E000003: over the process the PO numbers assigned are not pairwise different.
\<close>

theorem po_reused_across_sessions:
  "map record_of_row (tl (store_sheet example_process)) = [bob, ann]
   \<and> process_assigned (process_run example_process two_sessions) = [''E000003'', ''E000003'']
   \<and> \<not> distinct (process_assigned (process_run example_process two_sessions))"
proof -
  have a: "map record_of_row (tl (store_sheet example_process)) = [bob, ann]"
    by (simp add: example_process_def example_records)
  have b: "process_assigned (process_run example_process two_sessions) = [''E000003'', ''E000003'']"
    by (rule two_sessions_assigned)
  have c: "\<not> distinct (process_assigned (process_run example_process two_sessions))"
    unfolding b by simp
  from a b c show ?thesis by (intro conjI)
qed

text \<open>
  C9, beyond one session. In the same run of two sessions the sequence numbers of the PO
  numbers assigned over the process are 3 and 3, which is not strictly increasing.
\<close>

theorem po_not_increasing_across_sessions:
  "map po_sequence (process_assigned (process_run example_process two_sessions)) = [3, 3]
   \<and> \<not> sorted_wrt (<) (map po_sequence (process_assigned (process_run example_process two_sessions)))"
proof -
  have a: "map po_sequence (process_assigned (process_run example_process two_sessions)) = [3, 3]"
    unfolding two_sessions_assigned by (simp add: po_sequence_def nat_of_digits_def digit_val_def)
  have b: "\<not> sorted_wrt (<) (map po_sequence (process_assigned (process_run example_process two_sessions)))"
    unfolding a by simp
  from a b show ?thesis by (rule conjI)
qed

end
